theory Spec2Isabelle
  imports Complex_Main "HOL-Library.Multiset"
begin

section \<open>JavaScript values\<close>

text \<open>
  The catalog (class \<open>ItemsMgr\<close>) and the service worker are JavaScript. Their behaviour
  on the estimated values depends on the dynamic typing of the language (truthiness,
  \<open>||\<close>, \<open>parseFloat\<close>, \<open>===\<close>), so values are modelled with their runtime type.

  A number is a double. Only the sign of a difference and the outcome of a comparison
  are ever used by the code, and both are exact on doubles, so the finite numbers are
  modelled as rationals, next to NaN and the two infinities.
\<close>

datatype jsnum = NaN | NegInf | Fin rat | PosInf

text \<open>\<open>a - b\<close> on numbers.\<close>

fun js_sub :: "jsnum \<Rightarrow> jsnum \<Rightarrow> jsnum" where
  "js_sub NaN b = NaN"
| "js_sub a NaN = NaN"
| "js_sub (Fin x) (Fin y) = Fin (x - y)"
| "js_sub (Fin x) PosInf = NegInf"
| "js_sub (Fin x) NegInf = PosInf"
| "js_sub PosInf PosInf = NaN"
| "js_sub PosInf b = PosInf"
| "js_sub NegInf NegInf = NaN"
| "js_sub NegInf b = NegInf"

text \<open>\<open>a < b\<close> on numbers: false as soon as one side is NaN.\<close>

fun js_lt :: "jsnum \<Rightarrow> jsnum \<Rightarrow> bool" where
  "js_lt NaN b = False"
| "js_lt a NaN = False"
| "js_lt (Fin x) (Fin y) = (x < y)"
| "js_lt (Fin x) PosInf = True"
| "js_lt (Fin x) NegInf = False"
| "js_lt PosInf b = False"
| "js_lt NegInf NegInf = False"
| "js_lt NegInf b = True"

text \<open>
  The values a field of an item can hold: the primitives, a \<open>Date\<close> (with its time value)
  and, for data received as JSON such as the list of variants, an array or plain object,
  kept as an opaque reference.
\<close>

datatype jsval =
    JUndefined
  | JNull
  | JBool bool
  | JNum jsnum
  | JStr string
  | JDate jsnum
  | JObj nat

text \<open>
  An object is a map from property names to values. Reading a property that the object
  does not have gives \<open>undefined\<close>; the spread \<open>{...a, ...b}\<close> is \<open>a ++ b\<close>.
\<close>

type_synonym jsobj = "string \<rightharpoonup> jsval"

definition js_get :: "jsobj \<Rightarrow> string \<Rightarrow> jsval" where
  "js_get obj k = (case obj k of None \<Rightarrow> JUndefined | Some v \<Rightarrow> v)"

text \<open>
  Conversions of the runtime that the code relies on but does not define: the number a
  string parses to under \<open>parseFloat\<close> and under \<open>ToNumber\<close>, the string form of an array
  or plain object, and the time value of \<open>new Date(v)\<close>. They are parameters of the
  model, so every theorem holds whatever the runtime answers.
\<close>

record runtime =
  parseFloatStr :: "string \<Rightarrow> jsnum"
  toNumberStr :: "string \<Rightarrow> jsnum"
  objToString :: "nat \<Rightarrow> string"
  newDate :: "jsval \<Rightarrow> jsnum"

text \<open>Truthiness: \<open>undefined\<close>, \<open>null\<close>, \<open>false\<close>, \<open>0\<close>, \<open>NaN\<close> and \<open>""\<close> are falsy.\<close>

fun truthy :: "jsval \<Rightarrow> bool" where
  "truthy JUndefined = False"
| "truthy JNull = False"
| "truthy (JBool b) = b"
| "truthy (JNum n) = (n \<noteq> NaN \<and> n \<noteq> Fin 0)"
| "truthy (JStr s) = (s \<noteq> [])"
| "truthy (JDate t) = True"
| "truthy (JObj r) = True"

text \<open>\<open>a || b\<close>.\<close>

definition js_or :: "jsval \<Rightarrow> jsval \<Rightarrow> jsval" where
  "js_or a b = (if truthy a then a else b)"

text \<open>
  \<open>parseFloat(v)\<close> converts \<open>v\<close> to a string and parses it. A number prints and parses
  back to itself; \<open>"undefined"\<close>, \<open>"null"\<close>, \<open>"true"\<close>, \<open>"false"\<close> and the string form of
  a date do not start with a number.
\<close>

fun parseFloat :: "runtime \<Rightarrow> jsval \<Rightarrow> jsnum" where
  "parseFloat rt JUndefined = NaN"
| "parseFloat rt JNull = NaN"
| "parseFloat rt (JBool b) = NaN"
| "parseFloat rt (JNum n) = n"
| "parseFloat rt (JStr s) = parseFloatStr rt s"
| "parseFloat rt (JDate t) = NaN"
| "parseFloat rt (JObj r) = parseFloatStr rt (objToString rt r)"

text \<open>\<open>ToNumber(v)\<close>, applied by \<open>-\<close> and by \<open><\<close> when one side is a number.\<close>

fun toNumber :: "runtime \<Rightarrow> jsval \<Rightarrow> jsnum" where
  "toNumber rt JUndefined = NaN"
| "toNumber rt JNull = Fin 0"
| "toNumber rt (JBool b) = Fin (if b then 1 else 0)"
| "toNumber rt (JNum n) = n"
| "toNumber rt (JStr s) = toNumberStr rt s"
| "toNumber rt (JDate t) = t"
| "toNumber rt (JObj r) = toNumberStr rt (objToString rt r)"

text \<open>
  \<open>v == ""\<close>: a string is compared as it is; a number or boolean is compared with
  \<open>ToNumber("") = 0\<close>; \<open>null\<close> and \<open>undefined\<close> equal only each other; an array or
  plain object is compared by its string form; the string form of a date is never empty.
\<close>

fun loose_eq_empty :: "runtime \<Rightarrow> jsval \<Rightarrow> bool" where
  "loose_eq_empty rt JUndefined = False"
| "loose_eq_empty rt JNull = False"
| "loose_eq_empty rt (JBool b) = (\<not> b)"
| "loose_eq_empty rt (JNum n) = (n = Fin 0)"
| "loose_eq_empty rt (JStr s) = (s = [])"
| "loose_eq_empty rt (JDate t) = False"
| "loose_eq_empty rt (JObj r) = (objToString rt r = [])"

section \<open>The catalog: \<open>ItemsMgr\<close>\<close>

definition TYPE_DATE_ASC :: string where "TYPE_DATE_ASC = ''date_asc''"
definition TYPE_DATE_DESC :: string where "TYPE_DATE_DESC = ''date_desc''"
definition TYPE_PRICE_DESC :: string where "TYPE_PRICE_DESC = ''price_desc''"
definition TYPE_PRICE_ASC :: string where "TYPE_PRICE_ASC = ''price_asc''"

text \<open>
  An entry of the \<open>items\<close> map: the item's data, its DOM element (\<open>null\<close> until it is
  stored) and, once \<open>storeItemDOMElement\<close> has run, its tile. DOM elements are handles.
\<close>

record item =
  data :: jsobj
  element :: "nat option"
  tile :: "nat option"

text \<open>
  A JavaScript \<open>Map\<close> iterates in insertion order, and the sort relies on it, so
  \<open>items\<close> is an association list. \<open>Map.set\<close> replaces the value of a key that is
  present, where it stands, and otherwise appends the entry.
\<close>

type_synonym 'v jsmap = "(string \<times> 'v) list"

fun map_set :: "string \<Rightarrow> 'v \<Rightarrow> 'v jsmap \<Rightarrow> 'v jsmap" where
  "map_set k v [] = [(k, v)]"
| "map_set k v (p # ps) = (if fst p = k then (k, v) # ps else p # map_set k v ps)"

text \<open>\<open>new Map(entries)\<close> sets the entries one after the other.\<close>

definition new_Map :: "(string \<times> 'v) list \<Rightarrow> 'v jsmap" where
  "new_Map entries = fold (\<lambda>(k, v) m. map_set k v m) entries []"

record catalog =
  items :: "item jsmap"
  imageUrls :: "jsval set"

text \<open>The settings are read through \<open>Settings.get(path)\<close>, a function of the path.\<close>

type_synonym settings = "string \<Rightarrow> jsval"

text \<open>
  \<open>Array.prototype.sort\<close> with a comparison function is stable; \<open>x\<close> moves behind \<open>y\<close>
  only where the function returns a number above zero (NaN counts as zero). For a
  consistent comparison function every stable sort gives the same array; the model is
  the stable insertion sort.
\<close>

fun sort_insert :: "('a \<Rightarrow> 'a \<Rightarrow> jsnum) \<Rightarrow> 'a \<Rightarrow> 'a list \<Rightarrow> 'a list" where
  "sort_insert cmp x [] = [x]"
| "sort_insert cmp x (y # ys) =
     (if js_lt (Fin 0) (cmp x y) then y # sort_insert cmp x ys else x # y # ys)"

definition array_sort :: "('a \<Rightarrow> 'a \<Rightarrow> jsnum) \<Rightarrow> 'a list \<Rightarrow> 'a list" where
  "array_sort cmp xs = foldr (sort_insert cmp) xs []"

text \<open>The comparison function of \<open>sortItems\<close>, on two entries \<open>(asin, item)\<close>.\<close>

definition sort_cmp :: "runtime \<Rightarrow> settings \<Rightarrow> string \<times> item \<Rightarrow> string \<times> item \<Rightarrow> jsnum" where
  "sort_cmp rt st a b =
     (if st ''notification.monitor.sortType'' = JStr TYPE_DATE_ASC then
        js_sub (toNumber rt (js_get (data (snd a)) ''date''))
               (toNumber rt (js_get (data (snd b)) ''date''))
      else if st ''notification.monitor.sortType'' = JStr TYPE_DATE_DESC then
        js_sub (toNumber rt (js_get (data (snd b)) ''date''))
               (toNumber rt (js_get (data (snd a)) ''date''))
      else if st ''notification.monitor.sortType'' = JStr TYPE_PRICE_ASC then
        (let aPrice = parseFloat rt (js_or (js_get (data (snd a)) ''etv_min'') (JNum (Fin 99999999)));
             bPrice = parseFloat rt (js_or (js_get (data (snd b)) ''etv_min'') (JNum (Fin 99999999)))
         in js_sub aPrice bPrice)
      else
        (let aPrice = parseFloat rt (js_or (js_get (data (snd a)) ''etv_min'') (JNum (Fin (- 1))));
             bPrice = parseFloat rt (js_or (js_get (data (snd b)) ''etv_min'') (JNum (Fin (- 1))))
         in js_sub bPrice aPrice))"

text \<open>
  \<open>sortItems\<close>: nothing to do on an empty map; otherwise the entries are copied to an
  array of \<open>{asin, data, element}\<close>, sorted, and a new map is built from them. The
  entries of the new map carry \<open>data\<close> and \<open>element\<close> only.
\<close>

definition sort_entry :: "string \<times> item \<Rightarrow> string \<times> item" where
  "sort_entry e = (fst e, \<lparr>data = data (snd e), element = element (snd e), tile = None\<rparr>)"

definition sortItems :: "runtime \<Rightarrow> settings \<Rightarrow> catalog \<Rightarrow> catalog" where
  "sortItems rt st c =
     (if items c = [] then c
      else
        let itemsArray = map sort_entry (items c)
        in c\<lparr>items := new_Map (array_sort (sort_cmp rt st) itemsArray)\<rparr>)"

text \<open>
  \<open>updateItemETV(asin, etv)\<close>, with \<open>etv\<close> a number as its documentation says. The
  two tests run on the item's data one after the other, the item being changed in place:
  \<open>!item.data.etv_min || etv < item.data.etv_min\<close>, then the same for \<open>etv_max\<close>
  with \<open>>\<close>.
\<close>

definition etv_updated :: "runtime \<Rightarrow> jsnum \<Rightarrow> jsobj \<Rightarrow> jsobj" where
  "etv_updated rt etv d0 =
     (let d1 = (if \<not> truthy (js_get d0 ''etv_min'') \<or> js_lt etv (toNumber rt (js_get d0 ''etv_min''))
                then d0(''etv_min'' \<mapsto> JNum etv) else d0)
      in if \<not> truthy (js_get d1 ''etv_max'') \<or> js_lt (toNumber rt (js_get d1 ''etv_max'')) etv
         then d1(''etv_max'' \<mapsto> JNum etv) else d1)"

definition updateItemETV :: "runtime \<Rightarrow> settings \<Rightarrow> string \<Rightarrow> jsnum \<Rightarrow> catalog \<Rightarrow> bool \<times> catalog" where
  "updateItemETV rt st asin etv c =
     (case map_of (items c) asin of
        None \<Rightarrow> (False, c)
      | Some it \<Rightarrow>
          (True, sortItems rt st
                   (c\<lparr>items := map_set asin (it\<lparr>data := etv_updated rt etv (data it)\<rparr>) (items c)\<rparr>)))"

definition updateItemTier :: "runtime \<Rightarrow> settings \<Rightarrow> string \<Rightarrow> jsval \<Rightarrow> catalog \<Rightarrow> bool \<times> catalog" where
  "updateItemTier rt st asin tier c =
     (case map_of (items c) asin of
        None \<Rightarrow> (False, c)
      | Some it \<Rightarrow>
          (True, sortItems rt st
                   (c\<lparr>items := map_set asin (it\<lparr>data := (data it)(''tier'' \<mapsto> tier)\<rparr>) (items c)\<rparr>)))"

text \<open>
  The step of \<open>addItemData\<close> that turns an empty string in \<open>etv_min\<close> or \<open>etv_max\<close>
  back into \<open>null\<close> (\<open>=== ""\<close>, so only the empty string itself matches).
\<close>

definition etv_empty_to_null :: "jsobj \<Rightarrow> jsobj" where
  "etv_empty_to_null d =
     (let d1 = (if js_get d ''etv_min'' = JStr [] then d(''etv_min'' \<mapsto> JNull) else d)
      in if js_get d1 ''etv_max'' = JStr [] then d1(''etv_max'' \<mapsto> JNull) else d1)"

text \<open>
  \<open>addItemData(asin, itemData)\<close>; \<open>now\<close> is the time value of the \<open>new Date()\<close> that
  stamps a new item. The result is \<open>addedStatus\<close> and the catalog.
\<close>

definition addItemData ::
  "runtime \<Rightarrow> settings \<Rightarrow> rat \<Rightarrow> string \<Rightarrow> jsobj \<Rightarrow> catalog \<Rightarrow> bool \<times> catalog" where
  "addItemData rt st now asin itemData c =
     (let (addedStatus, entry) =
            (case map_of (items c) asin of
               None \<Rightarrow>
                 (True, \<lparr>data = itemData(''dateAdded'' \<mapsto> JDate (Fin now)), element = None, tile = None\<rparr>)
             | Some existing \<Rightarrow>
                 (False, \<lparr>data = data existing ++ itemData, element = element existing, tile = None\<rparr>));
          entry1 = entry\<lparr>data := etv_empty_to_null (data entry)\<rparr>;
          c1 = c\<lparr>items := map_set asin entry1 (items c)\<rparr>;
          c2 = (if truthy (js_get itemData ''img_url'')
                   \<and> truthy (st ''notification.monitor.hideDuplicateThumbnail'')
                then c1\<lparr>imageUrls := insert (js_get itemData ''img_url'') (imageUrls c1)\<rparr>
                else c1)
      in (addedStatus, sortItems rt st c2))"

text \<open>
  \<open>storeItemDOMElement(asin, element)\<close> throws when the item is not in the map;
  otherwise it answers whether the item had been marked unavailable (\<open>=== true\<close>).
\<close>

datatype error = ItemNotFound string

definition storeItemDOMElement :: "string \<Rightarrow> nat \<Rightarrow> catalog \<Rightarrow> error + (bool \<times> catalog)" where
  "storeItemDOMElement asin el c =
     (case map_of (items c) asin of
        Some it \<Rightarrow>
          Inr (js_get (data it) ''unavailable'' = JBool True,
               c\<lparr>items := map_set asin (it\<lparr>element := Some el, tile := Some el\<rparr>) (items c)\<rparr>)
      | None \<Rightarrow> Inl (ItemNotFound asin))"

definition markItemUnavailable :: "string \<Rightarrow> catalog \<Rightarrow> catalog" where
  "markItemUnavailable asin c =
     (case map_of (items c) asin of
        Some it \<Rightarrow>
          c\<lparr>items := map_set asin (it\<lparr>data := (data it)(''unavailable'' \<mapsto> JBool True)\<rparr>) (items c)\<rparr>
      | None \<Rightarrow> c)"

definition getItemDOMElement :: "string \<Rightarrow> catalog \<Rightarrow> nat option" where
  "getItemDOMElement asin c = (case map_of (items c) asin of None \<Rightarrow> None | Some it \<Rightarrow> element it)"

definition getItemTile :: "string \<Rightarrow> catalog \<Rightarrow> nat option" where
  "getItemTile asin c = (case map_of (items c) asin of None \<Rightarrow> None | Some it \<Rightarrow> tile it)"

definition removeAsin :: "string \<Rightarrow> catalog \<Rightarrow> catalog" where
  "removeAsin asin c = c\<lparr>items := filter (\<lambda>p. fst p \<noteq> asin) (items c)\<rparr>"

text \<open>
  A catalog operation, and the catalog it leaves. \<open>storeItemDOMElement\<close> leaves the
  catalog as it was when it throws.
\<close>

datatype catalog_op =
    AddItemData rat string jsobj
  | UpdateItemETV string jsnum
  | UpdateItemTier string jsval
  | MarkItemUnavailable string
  | StoreItemDOMElement string nat

fun apply_op :: "runtime \<Rightarrow> settings \<Rightarrow> catalog_op \<Rightarrow> catalog \<Rightarrow> catalog" where
  "apply_op rt st (AddItemData now asin itemData) c = snd (addItemData rt st now asin itemData c)"
| "apply_op rt st (UpdateItemETV asin etv) c = snd (updateItemETV rt st asin etv c)"
| "apply_op rt st (UpdateItemTier asin tier) c = snd (updateItemTier rt st asin tier c)"
| "apply_op rt st (MarkItemUnavailable asin) c = markItemUnavailable asin c"
| "apply_op rt st (StoreItemDOMElement asin el) c =
     (case storeItemDOMElement asin el c of Inl e \<Rightarrow> c | Inr r \<Rightarrow> snd r)"

subsection \<open>Reading the catalog\<close>

text \<open>\<open>items.get(asin)?.data[k]\<close>: the field \<open>k\<close> of the item, when the item is there.\<close>

definition field_of :: "catalog \<Rightarrow> string \<Rightarrow> string \<Rightarrow> jsval option" where
  "field_of c asin k = map_option (\<lambda>it. js_get (data it) k) (map_of (items c) asin)"

text \<open>
  The data object \<open>addItemData\<close> builds for \<open>asin\<close> before it looks at the empty strings:
  the incoming data with the stamp for a new item, the old data overlaid with the
  incoming data for a known one.
\<close>

definition merged_data :: "rat \<Rightarrow> string \<Rightarrow> jsobj \<Rightarrow> catalog \<Rightarrow> jsobj" where
  "merged_data now asin itemData c =
     (case map_of (items c) asin of
        None \<Rightarrow> itemData(''dateAdded'' \<mapsto> JDate (Fin now))
      | Some existing \<Rightarrow> data existing ++ itemData)"

text \<open>
  The bounds of an item are ordered when, both being finite numbers, \<open>etv_min\<close> is at
  most \<open>etv_max\<close>; the catalog is ordered when every item is.
\<close>

definition etv_ordered :: "jsobj \<Rightarrow> bool" where
  "etv_ordered d =
     (case js_get d ''etv_min'' of
        JNum (Fin lo) \<Rightarrow> (case js_get d ''etv_max'' of JNum (Fin hi) \<Rightarrow> lo \<le> hi | _ \<Rightarrow> True)
      | _ \<Rightarrow> True)"

definition catalog_ordered :: "catalog \<Rightarrow> bool" where
  "catalog_ordered c = list_all (\<lambda>e. etv_ordered (data (snd e))) (items c)"

text \<open>
  The price \<open>sortItems\<close> compares under the two price orders:
  \<open>parseFloat(data.etv_min || missing)\<close>, with \<open>missing\<close> the number that stands in
  for a falsy \<open>etv_min\<close> (99999999 ascending, -1 descending).
\<close>

definition price_under :: "runtime \<Rightarrow> rat \<Rightarrow> jsobj \<Rightarrow> jsnum" where
  "price_under rt missing d = parseFloat rt (js_or (js_get d ''etv_min'') (JNum (Fin missing)))"

text \<open>
  \<open>listed_before x y ks\<close>: the key \<open>x\<close> stands in the list \<open>ks\<close>, and \<open>y\<close> stands
  somewhere behind it.
\<close>

fun listed_before :: "'a \<Rightarrow> 'a \<Rightarrow> 'a list \<Rightarrow> bool" where
  "listed_before x y [] = False"
| "listed_before x y (z # zs) = (if z = x then y \<in> set zs else listed_before x y zs)"

section \<open>The service worker\<close>

subsection \<open>Buffering of the stream's output\<close>

text \<open>
  \<open>data.type == "..."\<close> against one of the type names of the protocol. None of them is
  a number or the string form of a date, so besides the string itself only an array or
  object with that string form compares equal.
\<close>

fun type_is :: "runtime \<Rightarrow> jsobj \<Rightarrow> string \<Rightarrow> bool" where
  "type_is rt d s =
     (case js_get d ''type'' of
        JStr x \<Rightarrow> x = s
      | JObj r \<Rightarrow> objToString rt r = s
      | _ \<Rightarrow> False)"

text \<open>
  What \<open>sendMessageToAllTabs\<close> is given: an event as it is, or the object
  \<open>{ type: "fetch100", data: dataBuffer }\<close>.
\<close>

datatype message = Event jsobj | Fetch100 "jsobj list"

text \<open>
  The globals \<open>fetch100\<close> and \<open>dataBuffer\<close>, the messages sent to the tabs so far, and
  the objects given to \<open>myStream.input\<close> so far. (The stream itself is not part of
  these sources; its output is what \<open>dataBuffering\<close> receives.)
\<close>

record worker =
  fetch100 :: bool
  dataBuffer :: "jsobj list"
  sent :: "message list"
  streamInput :: "jsobj list"

definition sendMessageToAllTabs :: "message \<Rightarrow> worker \<Rightarrow> worker" where
  "sendMessageToAllTabs m w = w\<lparr>sent := sent w @ [m]\<rparr>"

definition dataBuffering :: "runtime \<Rightarrow> jsobj \<Rightarrow> worker \<Rightarrow> worker" where
  "dataBuffering rt d w =
     (if \<not> fetch100 w then sendMessageToAllTabs (Event d) w
      else
        let w1 = w\<lparr>dataBuffer := dataBuffer w @ [d]\<rparr>
        in if type_is rt d ''fetchRecentItemsEnd''
           then (sendMessageToAllTabs (Fetch100 (dataBuffer w1)) w1)\<lparr>dataBuffer := [], fetch100 := False\<rparr>
           else w1)"

text \<open>The events of a list, received one after the other.\<close>

definition receive_all :: "runtime \<Rightarrow> jsobj list \<Rightarrow> worker \<Rightarrow> worker" where
  "receive_all rt ds w = fold (dataBuffering rt) ds w"

subsection \<open>Replay of the last items\<close>

text \<open>The object \<open>processLast100Items\<close> hands to the stream for the product at index \<open>i\<close>.\<close>

definition newItem_of :: "settings \<Rightarrow> nat \<Rightarrow> jsobj \<Rightarrow> jsobj" where
  "newItem_of st i p =
     [''index'' \<mapsto> JNum (Fin (of_nat i)),
      ''type'' \<mapsto> JStr ''newItem'',
      ''domain'' \<mapsto> st ''general.country'',
      ''date'' \<mapsto> js_get p ''date'',
      ''date_added'' \<mapsto> js_get p ''date_added'',
      ''asin'' \<mapsto> js_get p ''asin'',
      ''title'' \<mapsto> js_get p ''title'',
      ''img_url'' \<mapsto> js_get p ''img_url'',
      ''etv_min'' \<mapsto> js_get p ''etv_min'',
      ''etv_max'' \<mapsto> js_get p ''etv_max'',
      ''queue'' \<mapsto> js_get p ''queue'',
      ''tier'' \<mapsto> js_get p ''tier'',
      ''reason'' \<mapsto> JStr ''Fetch latest new items'',
      ''is_parent_asin'' \<mapsto> js_get p ''is_parent_asin'',
      ''is_pre_release'' \<mapsto> js_get p ''is_pre_release'',
      ''enrollment_guid'' \<mapsto> js_get p ''enrollment_guid'',
      ''unavailable'' \<mapsto> js_get p ''unavailable'',
      ''variants'' \<mapsto> js_get p ''variants'']"

text \<open>\<open>img_url == "" || title == ""\<close>: the product is passed over.\<close>

definition skipped :: "runtime \<Rightarrow> jsobj \<Rightarrow> bool" where
  "skipped rt p = (loose_eq_empty rt (js_get p ''img_url'') \<or> loose_eq_empty rt (js_get p ''title''))"

text \<open>
  The loop \<open>for (let i = arrProducts.length - 1; i >= 0; i--)\<close>: \<open>replay rt st arr n\<close>
  is what the rounds \<open>i = n - 1, ..., 0\<close> hand to the stream.
\<close>

fun replay :: "runtime \<Rightarrow> settings \<Rightarrow> jsobj list \<Rightarrow> nat \<Rightarrow> jsobj list" where
  "replay rt st arr 0 = []"
| "replay rt st arr (Suc i) =
     (if skipped rt (arr ! i) then [] else [newItem_of st i (arr ! i)]) @ replay rt st arr i"

text \<open>The comparison function of the sort: \<open>new Date(b.date) - new Date(a.date)\<close>.\<close>

definition date_cmp :: "runtime \<Rightarrow> jsobj \<Rightarrow> jsobj \<Rightarrow> jsnum" where
  "date_cmp rt a b = js_sub (newDate rt (js_get b ''date'')) (newDate rt (js_get a ''date''))"

definition fetchRecentItemsEnd :: jsobj where
  "fetchRecentItemsEnd = [''type'' \<mapsto> JStr ''fetchRecentItemsEnd'']"

definition processLast100Items :: "runtime \<Rightarrow> settings \<Rightarrow> jsobj list \<Rightarrow> worker \<Rightarrow> worker" where
  "processLast100Items rt st arrProducts w =
     (let arr = array_sort (date_cmp rt) arrProducts;
          w1 = w\<lparr>fetch100 := True\<rparr>
      in w1\<lparr>streamInput := streamInput w1 @ replay rt st arr (length arr) @ [fetchRecentItemsEnd]\<rparr>)"

text \<open>The time value of a product's date, where it has one.\<close>

definition date_of :: "runtime \<Rightarrow> jsobj \<Rightarrow> rat" where
  "date_of rt p = (case newDate rt (js_get p ''date'') of Fin t \<Rightarrow> t | _ \<Rightarrow> 0)"

subsection \<open>The websocket\<close>

text \<open>
  \<open>socket\<close> is undefined until the first connection attempt; afterwards it is a socket,
  of which the code reads the flag \<open>connected\<close>. \<open>attempts\<close> counts the calls of
  \<open>io.connect\<close>.
\<close>

record connection =
  socket :: "bool option"
  socket_connecting :: bool
  attempts :: nat

text \<open>
  \<open>connectWebSocket\<close>, up to the call of \<open>io.connect\<close>; \<open>countryCode\<close> is what
  \<open>i13n.getCountryCode()\<close> answers. A new socket is not connected yet.
\<close>

definition connectWebSocket :: "settings \<Rightarrow> jsval \<Rightarrow> connection \<Rightarrow> connection" where
  "connectWebSocket st countryCode s =
     (if \<not> truthy (st ''notification.active'') then s
      else if socket s = Some True then s
      else if countryCode = JNull then s
      else if socket_connecting s then s
      else s\<lparr>socket_connecting := True, socket := Some False, attempts := Suc (attempts s)\<rparr>)"

text \<open>
  The handlers of the socket's own events. The library sets \<open>connected\<close> before it
  calls them.
\<close>

datatype socket_event = SocketConnect | SocketDisconnect | SocketConnectError

fun on_socket_event :: "socket_event \<Rightarrow> connection \<Rightarrow> connection" where
  "on_socket_event SocketConnect s = s\<lparr>socket := Some True, socket_connecting := False\<rparr>"
| "on_socket_event SocketDisconnect s = s\<lparr>socket := Some False, socket_connecting := False\<rparr>"
| "on_socket_event SocketConnectError s = s\<lparr>socket_connecting := False\<rparr>"

subsection \<open>The reload timers\<close>

text \<open>
  The three functions given to \<open>setTimeout\<close>: the one of \<open>resetReloadTimer\<close>, and the
  two of \<open>setReloadTimer\<close> (the log line, and the next round).
\<close>

datatype callback = ResetExpired | DisplayLog | NextRound

text \<open>
  The globals \<open>displayTimer\<close> and \<open>reloadTimer\<close> (\<open>null\<close> or a timer id), and the
  timers of the runtime that are pending, each with its id, its function and its delay
  in milliseconds. Ids are handed out in sequence, from 1.
\<close>

record scheduler =
  displayTimer :: "nat option"
  reloadTimer :: "nat option"
  pending :: "(nat \<times> callback \<times> nat) list"
  nextTimerId :: nat

definition setTimeout :: "callback \<Rightarrow> nat \<Rightarrow> scheduler \<Rightarrow> nat \<times> scheduler" where
  "setTimeout f ms s =
     (nextTimerId s, s\<lparr>pending := pending s @ [(nextTimerId s, f, ms)], nextTimerId := Suc (nextTimerId s)\<rparr>)"

definition clearTimeout :: "nat option \<Rightarrow> scheduler \<Rightarrow> scheduler" where
  "clearTimeout t s =
     (case t of None \<Rightarrow> s | Some i \<Rightarrow> s\<lparr>pending := filter (\<lambda>p. fst p \<noteq> i) (pending s)\<rparr>)"

definition resetReloadTimer :: "nat \<Rightarrow> scheduler \<Rightarrow> scheduler" where
  "resetReloadTimer interval s =
     (let (i, s1) = setTimeout ResetExpired interval s in s1\<lparr>reloadTimer := Some i\<rparr>)"

text \<open>\<open>if (t)\<close> on a timer variable: \<open>null\<close> and the id 0 are falsy.\<close>

definition timer_set :: "nat option \<Rightarrow> bool" where
  "timer_set t = (case t of None \<Rightarrow> False | Some i \<Rightarrow> i \<noteq> 0)"

text \<open>
  \<open>setReloadTimer\<close>, as far as the timers go. \<open>withinRange\<close> is the answer of
  \<open>isTimeWithinRange()\<close> and \<open>timer\<close> the random delay drawn for the next round; the
  request sent over the socket in between does not touch the timers.
\<close>

definition setReloadTimer :: "bool \<Rightarrow> nat \<Rightarrow> scheduler \<Rightarrow> scheduler" where
  "setReloadTimer withinRange timer s =
     (let s1 = (if timer_set (displayTimer s)
                then (clearTimeout (displayTimer s) s)\<lparr>displayTimer := None\<rparr> else s);
          s2 = (if timer_set (reloadTimer s1)
                then (clearTimeout (reloadTimer s1) s1)\<lparr>reloadTimer := None\<rparr> else s1)
      in if \<not> withinRange then resetReloadTimer (1000 * 60 * 15) s2
         else
           let (d, s3) = setTimeout DisplayLog 500 s2;
               (r, s4) = setTimeout NextRound timer (s3\<lparr>displayTimer := Some d\<rparr>)
           in s4\<lparr>reloadTimer := Some r\<rparr>)"

text \<open>
  The branches of \<open>processBroadcastMessage\<close> that act on the timers; the other branches
  (ping, fetchLatestItems, setCountryCode, wsStatus, closeARTab) leave them alone.
  \<open>data.type == undefined\<close> holds for \<open>null\<close> and \<open>undefined\<close>.
\<close>

definition processBroadcastMessage :: "runtime \<Rightarrow> jsobj \<Rightarrow> scheduler \<Rightarrow> scheduler" where
  "processBroadcastMessage rt d s =
     (if js_get d ''type'' = JUndefined \<or> js_get d ''type'' = JNull then s
      else
        let s1 = (if type_is rt d ''dogpage'' then resetReloadTimer (1000 * 60 * 60 * 24) s else s);
            s2 = (if type_is rt d ''captchapage'' then resetReloadTimer (1000 * 60 * 60) s1 else s1)
        in if type_is rt d ''loginpage'' then resetReloadTimer (1000 * 60 * 60) s2 else s2)"

text \<open>
  The pending timer \<open>i\<close> fires: the runtime drops it and runs its function. Nothing
  happens when no such timer is pending.
\<close>

definition fire :: "bool \<Rightarrow> nat \<Rightarrow> nat \<Rightarrow> scheduler \<Rightarrow> scheduler" where
  "fire withinRange timer i s =
     (case map_of (pending s) i of
        None \<Rightarrow> s
      | Some (f, ms) \<Rightarrow>
          let s1 = s\<lparr>pending := filter (\<lambda>p. fst p \<noteq> i) (pending s)\<rparr>
          in (case f of
                ResetExpired \<Rightarrow>
                  setReloadTimer withinRange timer ((clearTimeout (reloadTimer s1) s1)\<lparr>reloadTimer := None\<rparr>)
              | DisplayLog \<Rightarrow> s1
              | NextRound \<Rightarrow> setReloadTimer withinRange timer s1))"

section \<open>Concrete inputs\<close>

text \<open>
  A runtime in which a string parses to no number and a date is its own time value,
  settings that are all unset but for the sort type, and small catalogs.
\<close>

definition rt0 :: runtime where
  "rt0 = \<lparr>parseFloatStr = (\<lambda>s. NaN), toNumberStr = (\<lambda>s. NaN), objToString = (\<lambda>r. ''[object Object]''),
          newDate = (\<lambda>v. case v of JNum n \<Rightarrow> n | _ \<Rightarrow> NaN)\<rparr>"

definition st_sort :: "string \<Rightarrow> settings" where
  "st_sort t = (\<lambda>path. if path = ''notification.monitor.sortType'' then JStr t else JUndefined)"

definition catalog0 :: catalog where
  "catalog0 = \<lparr>items = [], imageUrls = {}\<rparr>"

definition item_of :: "jsobj \<Rightarrow> item" where
  "item_of d = \<lparr>data = d, element = None, tile = None\<rparr>"

definition catalog_of :: "(string \<times> jsobj) list \<Rightarrow> catalog" where
  "catalog_of ds = \<lparr>items = map (\<lambda>(asin, d). (asin, item_of d)) ds, imageUrls = {}\<rparr>"

text \<open>
  A \<open>newItem\<close> event for an id, a product of a snapshot, a worker in the middle of a
  fetch with nothing buffered yet, and the timers before the first round.
\<close>

definition newItem_event :: "string \<Rightarrow> jsobj" where
  "newItem_event asin = [''type'' \<mapsto> JStr ''newItem'', ''asin'' \<mapsto> JStr asin]"

definition product :: "string \<Rightarrow> string \<Rightarrow> string \<Rightarrow> rat \<Rightarrow> jsobj" where
  "product asin title img t =
     [''asin'' \<mapsto> JStr asin, ''title'' \<mapsto> JStr title, ''img_url'' \<mapsto> JStr img, ''date'' \<mapsto> JNum (Fin t)]"

text \<open>A product that came without a date: \<open>new Date(undefined)\<close> is an invalid date.\<close>

definition undated_product :: "string \<Rightarrow> string \<Rightarrow> string \<Rightarrow> jsobj" where
  "undated_product asin title img =
     [''asin'' \<mapsto> JStr asin, ''title'' \<mapsto> JStr title, ''img_url'' \<mapsto> JStr img]"

definition fetching0 :: worker where
  "fetching0 = \<lparr>fetch100 = True, dataBuffer = [], sent = [], streamInput = []\<rparr>"

definition scheduler0 :: scheduler where
  "scheduler0 = \<lparr>displayTimer = None, reloadTimer = None, pending = [], nextTimerId = 1\<rparr>"

section \<open>Properties of the catalog\<close>

subsection \<open>The map and the sort\<close>

lemma map_of_map_set: "map_of (map_set k v m) = (map_of m)(k \<mapsto> v)"
  by (induction m) (auto simp: fun_eq_iff)

lemma map_set_fresh: "k \<notin> fst ` set m \<Longrightarrow> map_set k v m = m @ [(k, v)]"
  by (induction m) auto

lemma keys_map_set:
  "map fst (map_set k v m) = (if k \<in> fst ` set m then map fst m else map fst m @ [k])"
  by (induction m) auto

lemma distinct_map_set: "distinct (map fst m) \<Longrightarrow> distinct (map fst (map_set k v m))"
  by (simp add: keys_map_set)

lemma fold_map_set_fresh:
  "distinct (map fst xs) \<Longrightarrow> fst ` set xs \<inter> fst ` set acc = {} \<Longrightarrow>
   fold (\<lambda>(k, v) m. map_set k v m) xs acc = acc @ xs"
proof (induction xs arbitrary: acc)
  case Nil
  then show ?case by simp
next
  case (Cons p ps)
  obtain k v where p: "p = (k, v)" by (cases p)
  from Cons.prems have fresh: "k \<notin> fst ` set acc" by (auto simp: p)
  have "fold (\<lambda>(k, v) m. map_set k v m) ps (acc @ [(k, v)]) = (acc @ [(k, v)]) @ ps"
    using Cons.prems by (intro Cons.IH) (auto simp: p)
  then show ?case by (simp add: p map_set_fresh [OF fresh])
qed

lemma new_Map_distinct: "distinct (map fst xs) \<Longrightarrow> new_Map xs = xs"
  unfolding new_Map_def using fold_map_set_fresh [of xs "[]"] by simp

lemma set_sort_insert: "set (sort_insert cmp x ys) = insert x (set ys)"
  by (induction ys) auto

lemma set_array_sort: "set (array_sort cmp xs) = set xs"
  unfolding array_sort_def by (induction xs) (auto simp: set_sort_insert)

lemma mset_sort_insert: "mset (sort_insert cmp x ys) = add_mset x (mset ys)"
  by (induction ys) auto

lemma mset_array_sort: "mset (array_sort cmp xs) = mset xs"
  unfolding array_sort_def by (induction xs) (auto simp: mset_sort_insert)

lemma distinct_keys_sort_insert:
  "distinct (map fst (sort_insert cmp x ys)) = distinct (map fst (x # ys))"
  by (induction ys) (auto simp: set_sort_insert)

lemma distinct_keys_array_sort:
  "distinct (map fst (array_sort cmp xs)) = distinct (map fst xs)"
  unfolding array_sort_def
  by (induction xs) (auto simp: distinct_keys_sort_insert set_array_sort [unfolded array_sort_def])

lemma fst_sort_entry: "fst (sort_entry e) = fst e"
  by (simp add: sort_entry_def)

lemma keys_sort_entries: "map fst (map sort_entry xs) = map fst xs"
  by (induction xs) (simp_all add: fst_sort_entry)

lemma items_sortItems:
  assumes "distinct (map fst (items c))"
  shows "items (sortItems rt st c) = array_sort (sort_cmp rt st) (map sort_entry (items c))"
proof (cases "items c = []")
  case True
  then show ?thesis by (simp add: sortItems_def array_sort_def)
next
  case False
  have "distinct (map fst (array_sort (sort_cmp rt st) (map sort_entry (items c))))"
    using assms by (simp only: distinct_keys_array_sort keys_sort_entries)
  then show ?thesis using False by (simp add: sortItems_def Let_def new_Map_distinct)
qed

lemma distinct_sortItems:
  "distinct (map fst (items c)) \<Longrightarrow> distinct (map fst (items (sortItems rt st c)))"
  by (simp only: items_sortItems distinct_keys_array_sort keys_sort_entries)

lemma map_of_sort_entries:
  "map_of (map sort_entry xs) k = map_option (\<lambda>it. snd (sort_entry (k, it))) (map_of xs k)"
  by (induction xs) (auto simp: sort_entry_def)

lemma map_of_sortItems:
  assumes "distinct (map fst (items c))"
  shows "map_of (items (sortItems rt st c)) k =
         map_option (\<lambda>it. \<lparr>data = data it, element = element it, tile = None\<rparr>) (map_of (items c) k)"
proof -
  let ?xs = "map sort_entry (items c)"
  have d: "distinct (map fst ?xs)" using assms by (simp only: keys_sort_entries)
  have "distinct (map fst (array_sort (sort_cmp rt st) ?xs))"
    using d by (simp only: distinct_keys_array_sort)
  then have "map_of (array_sort (sort_cmp rt st) ?xs) = map_of ?xs"
    using d by (simp only: map_of_inject_set set_array_sort)
  then show ?thesis
    by (simp add: items_sortItems [OF assms] map_of_sort_entries sort_entry_def)
qed

lemma map_of_sortItems_map_set:
  assumes "distinct (map fst (items c))" and "items c' = map_set asin e (items c)"
  shows "map_of (items (sortItems rt st c')) k =
         (if k = asin then Some \<lparr>data = data e, element = element e, tile = None\<rparr>
          else map_option (\<lambda>it. \<lparr>data = data it, element = element it, tile = None\<rparr>)
                 (map_of (items c) k))"
proof -
  have "distinct (map fst (items c'))"
    using assms by (simp add: distinct_map_set)
  then show ?thesis
    by (simp add: map_of_sortItems assms(2) map_of_map_set)
qed

subsection \<open>The operations, item by item\<close>

lemma addItemData_unfold:
  "addItemData rt st now asin itemData c =
     (map_of (items c) asin = None,
      sortItems rt st
        (c\<lparr>items := map_set asin
                    \<lparr>data = etv_empty_to_null (merged_data now asin itemData c),
                     element = (case map_of (items c) asin of None \<Rightarrow> None | Some e \<Rightarrow> element e),
                     tile = None\<rparr> (items c),
           imageUrls := (if truthy (js_get itemData ''img_url'')
                            \<and> truthy (st ''notification.monitor.hideDuplicateThumbnail'')
                         then insert (js_get itemData ''img_url'') (imageUrls c)
                         else imageUrls c)\<rparr>))"
  by (cases "map_of (items c) asin") (simp_all add: addItemData_def Let_def merged_data_def)

lemma distinct_addItemData:
  "distinct (map fst (items c)) \<Longrightarrow>
   distinct (map fst (items (snd (addItemData rt st now asin itemData c))))"
  by (simp add: addItemData_unfold distinct_sortItems distinct_map_set)

lemma map_of_addItemData:
  assumes "distinct (map fst (items c))"
  shows "map_of (items (snd (addItemData rt st now asin itemData c))) k =
         (if k = asin then
            Some \<lparr>data = etv_empty_to_null (merged_data now asin itemData c),
                  element = (case map_of (items c) asin of None \<Rightarrow> None | Some e \<Rightarrow> element e),
                  tile = None\<rparr>
          else map_option (\<lambda>it. \<lparr>data = data it, element = element it, tile = None\<rparr>)
                 (map_of (items c) k))"
  by (simp add: addItemData_unfold map_of_sortItems_map_set [OF assms])

lemma js_get_etv_empty_to_null:
  "js_get (etv_empty_to_null d) k =
     (if (k = ''etv_min'' \<or> k = ''etv_max'') \<and> js_get d k = JStr [] then JNull else js_get d k)"
  by (auto simp: etv_empty_to_null_def js_get_def Let_def)

lemma updateItemETV_present:
  "map_of (items c) asin = Some it \<Longrightarrow>
   updateItemETV rt st asin etv c =
     (True, sortItems rt st (c\<lparr>items := map_set asin (it\<lparr>data := etv_updated rt etv (data it)\<rparr>) (items c)\<rparr>))"
  by (simp add: updateItemETV_def)

lemma map_of_updateItemETV:
  assumes "distinct (map fst (items c))" and "map_of (items c) asin = Some it"
  shows "map_of (items (snd (updateItemETV rt st asin etv c))) k =
         (if k = asin then Some \<lparr>data = etv_updated rt etv (data it), element = element it, tile = None\<rparr>
          else map_option (\<lambda>it. \<lparr>data = data it, element = element it, tile = None\<rparr>)
                 (map_of (items c) k))"
  by (simp add: updateItemETV_present [OF assms(2)] map_of_sortItems_map_set [OF assms(1)])

lemma distinct_updateItemETV:
  "distinct (map fst (items c)) \<Longrightarrow>
   distinct (map fst (items (snd (updateItemETV rt st asin etv c))))"
  by (cases "map_of (items c) asin")
     (simp_all add: updateItemETV_def distinct_sortItems distinct_map_set)

lemma updateItemTier_present:
  "map_of (items c) asin = Some it \<Longrightarrow>
   updateItemTier rt st asin tier c =
     (True, sortItems rt st (c\<lparr>items := map_set asin (it\<lparr>data := (data it)(''tier'' \<mapsto> tier)\<rparr>) (items c)\<rparr>))"
  by (simp add: updateItemTier_def)

lemma map_of_updateItemTier:
  assumes "distinct (map fst (items c))" and "map_of (items c) asin = Some it"
  shows "map_of (items (snd (updateItemTier rt st asin tier c))) k =
         (if k = asin then Some \<lparr>data = (data it)(''tier'' \<mapsto> tier), element = element it, tile = None\<rparr>
          else map_option (\<lambda>it. \<lparr>data = data it, element = element it, tile = None\<rparr>)
                 (map_of (items c) k))"
  by (simp add: updateItemTier_present [OF assms(2)] map_of_sortItems_map_set [OF assms(1)])

lemma distinct_updateItemTier:
  "distinct (map fst (items c)) \<Longrightarrow>
   distinct (map fst (items (snd (updateItemTier rt st asin tier c))))"
  by (cases "map_of (items c) asin")
     (simp_all add: updateItemTier_def distinct_sortItems distinct_map_set)

lemma map_of_markItemUnavailable:
  "map_of (items (markItemUnavailable asin c)) k =
     (case map_of (items c) asin of
        None \<Rightarrow> map_of (items c) k
      | Some it \<Rightarrow> if k = asin then Some (it\<lparr>data := (data it)(''unavailable'' \<mapsto> JBool True)\<rparr>)
                   else map_of (items c) k)"
  by (simp add: markItemUnavailable_def map_of_map_set split: option.split)

lemma distinct_markItemUnavailable:
  "distinct (map fst (items c)) \<Longrightarrow> distinct (map fst (items (markItemUnavailable asin c)))"
  by (simp add: markItemUnavailable_def distinct_map_set split: option.split)

lemma map_set_twice: "map_set k v (map_set k w m) = map_set k v m"
  by (induction m) auto

lemma etv_ordered_etv_updated: "etv_ordered d \<Longrightarrow> etv_ordered (etv_updated rt etv d)"
  by (auto simp: etv_ordered_def etv_updated_def js_get_def Let_def
      split: jsval.splits jsnum.splits option.splits if_splits)

lemma catalog_ordered_iff:
  assumes "distinct (map fst (items c))"
  shows "catalog_ordered c = (\<forall>k it. map_of (items c) k = Some it \<longrightarrow> etv_ordered (data it))"
proof -
  have "(\<forall>e\<in>set (items c). etv_ordered (data (snd e)))
        = (\<forall>k it. map_of (items c) k = Some it \<longrightarrow> etv_ordered (data it))"
    using assms by (auto dest: map_of_SomeD)
  then show ?thesis by (simp add: catalog_ordered_def list_all_iff)
qed

lemma storeItemDOMElement_present:
  "map_of (items c) asin = Some it \<Longrightarrow>
   storeItemDOMElement asin el c =
     Inr (js_get (data it) ''unavailable'' = JBool True,
          c\<lparr>items := map_set asin (it\<lparr>element := Some el, tile := Some el\<rparr>) (items c)\<rparr>)"
  by (simp add: storeItemDOMElement_def)

lemma etv_ordered_cong:
  "js_get d' ''etv_min'' = js_get d ''etv_min'' \<Longrightarrow> js_get d' ''etv_max'' = js_get d ''etv_max'' \<Longrightarrow>
   etv_ordered d' = etv_ordered d"
  unfolding etv_ordered_def by (erule ssubst, erule ssubst, rule refl)

lemma etv_ordered_other_field:
  "k \<noteq> ''etv_min'' \<Longrightarrow> k \<noteq> ''etv_max'' \<Longrightarrow> etv_ordered (d(k \<mapsto> v)) = etv_ordered d"
  by (rule etv_ordered_cong) (simp_all add: js_get_def)

lemma markItemUnavailable_twice:
  "markItemUnavailable asin (markItemUnavailable asin c) = markItemUnavailable asin c"
  by (cases "map_of (items c) asin")
     (simp_all add: markItemUnavailable_def map_of_map_set map_set_twice)

subsection \<open>The sort, for a comparison function that follows a key\<close>

lemma sort_insert_sorted:
  fixes k :: "'a \<Rightarrow> rat"
  assumes "sorted (map k ys)"
    and "\<forall>y\<in>set ys. js_lt (Fin 0) (cmp x y) = (k y < k x)"
  shows "sorted (map k (sort_insert cmp x ys))"
  using assms
proof (induction ys)
  case Nil
  then show ?case by simp
next
  case (Cons y ys)
  show ?case
  proof (cases "k y < k x")
    case True
    have "sorted (map k (sort_insert cmp x ys))"
      using Cons by simp
    moreover have "\<forall>z\<in>set (sort_insert cmp x ys). k y \<le> k z"
      using Cons.prems(1) True by (auto simp: set_sort_insert)
    ultimately show ?thesis
      using Cons.prems(2) True by simp
  next
    case False
    then have "\<forall>z\<in>set (y # ys). k x \<le> k z"
      using Cons.prems(1) by (auto simp: not_less)
    then show ?thesis
      using Cons.prems False by simp
  qed
qed

lemma array_sort_sorted:
  fixes k :: "'a \<Rightarrow> rat"
  assumes "\<forall>x\<in>set xs. \<forall>y\<in>set xs. js_lt (Fin 0) (cmp x y) = (k y < k x)"
  shows "sorted (map k (array_sort cmp xs))"
  using assms
proof (induction xs)
  case Nil
  then show ?case by (simp add: array_sort_def)
next
  case (Cons x xs)
  have "sorted (map k (array_sort cmp xs))"
    using Cons by simp
  moreover have "\<forall>y\<in>set (array_sort cmp xs). js_lt (Fin 0) (cmp x y) = (k y < k x)"
    using Cons.prems by (simp add: set_array_sort)
  ultimately have "sorted (map k (sort_insert cmp x (array_sort cmp xs)))"
    by (rule sort_insert_sorted)
  then show ?case by (simp add: array_sort_def)
qed

lemma sorted_rev_neg:
  fixes f :: "'a \<Rightarrow> rat"
  shows "sorted (map (\<lambda>x. - f x) xs) \<Longrightarrow> sorted (map f (rev xs))"
  by (simp add: sorted_map sorted_wrt_rev)

lemma sorted_map_filter:
  "sorted (map f xs) \<Longrightarrow> sorted (map f (filter P xs))"
  by (simp add: sorted_map sorted_wrt_filter)

subsection \<open>The price orders\<close>

lemma sort_cmp_price_asc:
  "st ''notification.monitor.sortType'' = JStr TYPE_PRICE_ASC \<Longrightarrow>
   sort_cmp rt st x y =
     js_sub (price_under rt 99999999 (data (snd x))) (price_under rt 99999999 (data (snd y)))"
  by (simp add: sort_cmp_def price_under_def TYPE_PRICE_ASC_def TYPE_DATE_ASC_def TYPE_DATE_DESC_def)

lemma sort_cmp_price_desc:
  "st ''notification.monitor.sortType'' = JStr TYPE_PRICE_DESC \<Longrightarrow>
   sort_cmp rt st x y =
     js_sub (price_under rt (- 1) (data (snd y))) (price_under rt (- 1) (data (snd x)))"
  by (simp add: sort_cmp_def price_under_def TYPE_PRICE_DESC_def TYPE_PRICE_ASC_def
      TYPE_DATE_ASC_def TYPE_DATE_DESC_def)

lemma listed_before_sorted:
  fixes k :: "string \<times> 'v \<Rightarrow> rat"
  assumes "sorted (map k l)" and "distinct (map fst l)"
    and "x \<in> set l" and "y \<in> set l" and "k x < k y"
  shows "listed_before (fst x) (fst y) (map fst l)"
  using assms
proof (induction l)
  case Nil
  then show ?case by simp
next
  case (Cons z zs)
  show ?case
  proof (cases "fst z = fst x")
    case True
    have "x = z"
      using Cons.prems(2,3) True by (auto simp: image_iff)
    then have "y \<in> set zs"
      using Cons.prems(4,5) by auto
    then show ?thesis using True by simp
  next
    case False
    then have x: "x \<in> set zs" using Cons.prems(3) by auto
    have "y \<noteq> z"
    proof
      assume "y = z"
      then have "k y \<le> k x" using Cons.prems(1) x by simp
      then show False using Cons.prems(5) by simp
    qed
    then have "y \<in> set zs" using Cons.prems(4) by simp
    then have "listed_before (fst x) (fst y) (map fst zs)"
      using Cons.IH Cons.prems x by simp
    then show ?thesis using False by simp
  qed
qed

lemma listed_before_sortItems:
  fixes k :: "jsobj \<Rightarrow> rat"
  assumes dist: "distinct (map fst (items c))"
    and cmp: "\<forall>x\<in>set (items c). \<forall>y\<in>set (items c).
                js_lt (Fin 0) (sort_cmp rt st (sort_entry x) (sort_entry y))
                  = (k (data (snd y)) < k (data (snd x)))"
    and b: "map_of (items c) b = Some ib" and a: "map_of (items c) a = Some ia"
    and less: "k (data ib) < k (data ia)"
  shows "listed_before b a (map fst (items (sortItems rt st c)))"
proof -
  let ?l = "array_sort (sort_cmp rt st) (map sort_entry (items c))"
  let ?k = "\<lambda>e. k (data (snd e))"
  have data: "data (snd (sort_entry e)) = data (snd e)" for e :: "string \<times> item"
    by (simp add: sort_entry_def)
  have "\<forall>x\<in>set (map sort_entry (items c)). \<forall>y\<in>set (map sort_entry (items c)).
          js_lt (Fin 0) (sort_cmp rt st x y) = (?k y < ?k x)"
    using cmp by (auto simp: data)
  then have sorted: "sorted (map ?k ?l)"
    by (rule array_sort_sorted)
  have keys: "distinct (map fst ?l)"
    using dist by (simp only: distinct_keys_array_sort keys_sort_entries)
  have inb: "sort_entry (b, ib) \<in> set ?l" and ina: "sort_entry (a, ia) \<in> set ?l"
    using a b by (auto simp: set_array_sort dest: map_of_SomeD)
  have "?k (sort_entry (b, ib)) < ?k (sort_entry (a, ia))"
    using less by (simp add: data)
  then have "listed_before (fst (sort_entry (b, ib))) (fst (sort_entry (a, ia))) (map fst ?l)"
    by (rule listed_before_sorted [OF sorted keys inb ina])
  then show ?thesis
    by (simp add: items_sortItems [OF dist] fst_sort_entry)
qed

lemma price_under_null: "js_get d ''etv_min'' = JNull \<Longrightarrow> price_under rt missing d = Fin missing"
  by (simp add: price_under_def js_or_def)

lemma price_under_truthy:
  "truthy (js_get d ''etv_min'') \<Longrightarrow> price_under rt missing d = parseFloat rt (js_get d ''etv_min'')"
  by (simp add: price_under_def js_or_def)

subsection \<open>The claims on the catalog\<close>

text \<open>
  C1, as the code has it. For an id already in the catalog \<open>addItemData\<close> answers
  \<open>false\<close>, keeps the element, and lays the incoming fields over the old ones: every
  field that is present in \<open>itemData\<close> replaces the old value, \<open>etv_min\<close> and
  \<open>etv_max\<close> like any other; a field that is absent keeps its old value. Afterwards an
  empty string in \<open>etv_min\<close> or \<open>etv_max\<close> is replaced by \<open>null\<close>.
\<close>

theorem addItemData_overlays_known_item:
  assumes "distinct (map fst (items c))"
    and "map_of (items c) asin = Some it"
  shows "\<not> fst (addItemData rt st now asin itemData c)
         \<and> (\<exists>it'. map_of (items (snd (addItemData rt st now asin itemData c))) asin = Some it'
               \<and> element it' = element it
               \<and> (\<forall>k. js_get (data it') k =
                     (let v = (case itemData k of Some x \<Rightarrow> x | None \<Rightarrow> js_get (data it) k)
                      in if (k = ''etv_min'' \<or> k = ''etv_max'') \<and> v = JStr [] then JNull else v)))"
proof -
  have fresh: "\<not> fst (addItemData rt st now asin itemData c)"
    by (simp add: addItemData_unfold assms(2))
  have merged: "js_get (merged_data now asin itemData c) k
                = (case itemData k of Some x \<Rightarrow> x | None \<Rightarrow> js_get (data it) k)" for k
    by (simp add: merged_data_def assms(2) js_get_def map_add_def split: option.split)
  show ?thesis
    using fresh
    by (simp add: map_of_addItemData [OF assms(1)] assms(2) js_get_etv_empty_to_null merged Let_def)
qed

theorem addItemData_overlays_known_item_witness:
  "distinct (map fst (items (catalog_of [(''B0AAA'', [''etv_min'' \<mapsto> JNum (Fin 5), ''tier'' \<mapsto> JStr ''gold''])])))
   \<and> map_of (items (catalog_of [(''B0AAA'', [''etv_min'' \<mapsto> JNum (Fin 5), ''tier'' \<mapsto> JStr ''gold''])])) ''B0AAA''
       = Some (item_of [''etv_min'' \<mapsto> JNum (Fin 5), ''tier'' \<mapsto> JStr ''gold''])
   \<and> (\<exists>it'. map_of (items (snd (addItemData rt0 (st_sort ''price_desc'') 0 ''B0AAA'' [''etv_min'' \<mapsto> JStr []]
                  (catalog_of [(''B0AAA'', [''etv_min'' \<mapsto> JNum (Fin 5), ''tier'' \<mapsto> JStr ''gold''])])))) ''B0AAA''
              = Some it'
          \<and> js_get (data it') ''etv_min'' = JNull
          \<and> js_get (data it') ''tier'' = JStr ''gold'')"
proof -
  have "\<exists>it'. map_of (items (snd (addItemData rt0 (st_sort ''price_desc'') 0 ''B0AAA'' [''etv_min'' \<mapsto> JStr []]
                  (catalog_of [(''B0AAA'', [''etv_min'' \<mapsto> JNum (Fin 5), ''tier'' \<mapsto> JStr ''gold''])])))) ''B0AAA''
              = Some it'
          \<and> (\<forall>k. js_get (data it') k =
                (let v = (case [''etv_min'' \<mapsto> JStr []] k of Some x \<Rightarrow> x
                          | None \<Rightarrow> js_get (data (item_of [''etv_min'' \<mapsto> JNum (Fin 5), ''tier'' \<mapsto> JStr ''gold''])) k)
                 in if (k = ''etv_min'' \<or> k = ''etv_max'') \<and> v = JStr [] then JNull else v))"
    using addItemData_overlays_known_item [of
        "catalog_of [(''B0AAA'', [''etv_min'' \<mapsto> JNum (Fin 5), ''tier'' \<mapsto> JStr ''gold''])]" "''B0AAA''"
        "item_of [''etv_min'' \<mapsto> JNum (Fin 5), ''tier'' \<mapsto> JStr ''gold'']"
        rt0 "st_sort ''price_desc''" 0 "[''etv_min'' \<mapsto> JStr []]"]
    by (auto simp: catalog_of_def)
  then obtain it' where it': "map_of (items (snd (addItemData rt0 (st_sort ''price_desc'') 0 ''B0AAA'' [''etv_min'' \<mapsto> JStr []]
                  (catalog_of [(''B0AAA'', [''etv_min'' \<mapsto> JNum (Fin 5), ''tier'' \<mapsto> JStr ''gold''])])))) ''B0AAA''
              = Some it'"
    and all: "\<And>k. js_get (data it') k =
                (let v = (case [''etv_min'' \<mapsto> JStr []] k of Some x \<Rightarrow> x
                          | None \<Rightarrow> js_get (data (item_of [''etv_min'' \<mapsto> JNum (Fin 5), ''tier'' \<mapsto> JStr ''gold''])) k)
                 in if (k = ''etv_min'' \<or> k = ''etv_max'') \<and> v = JStr [] then JNull else v)"
    by blast
  have "js_get (data it') ''etv_min'' = JNull" "js_get (data it') ''tier'' = JStr ''gold''"
    using all [of "''etv_min''"] all [of "''tier''"] by (simp_all add: item_of_def js_get_def)
  then show ?thesis using it' by (simp add: catalog_of_def)
qed

text \<open>
  C1 as stated fails. An item holds the bounds 5 and 10, and \<open>addItemData\<close> is given 7
  and 8 for it: the bounds become 7 and 8, the incoming values. Under the rule of
  \<open>updateItemETV\<close> the same two values leave 5 and 10 in place.
\<close>

theorem addItemData_narrowing_counterexample:
  "field_of (snd (addItemData rt0 (st_sort ''price_desc'') 0 ''B0AAA''
                    [''etv_min'' \<mapsto> JNum (Fin 7), ''etv_max'' \<mapsto> JNum (Fin 8)]
                    (catalog_of [(''B0AAA'', [''etv_min'' \<mapsto> JNum (Fin 5), ''etv_max'' \<mapsto> JNum (Fin 10)])])))
     ''B0AAA'' ''etv_min'' = Some (JNum (Fin 7))
   \<and> field_of (snd (addItemData rt0 (st_sort ''price_desc'') 0 ''B0AAA''
                    [''etv_min'' \<mapsto> JNum (Fin 7), ''etv_max'' \<mapsto> JNum (Fin 8)]
                    (catalog_of [(''B0AAA'', [''etv_min'' \<mapsto> JNum (Fin 5), ''etv_max'' \<mapsto> JNum (Fin 10)])])))
     ''B0AAA'' ''etv_max'' = Some (JNum (Fin 8))
   \<and> js_get (etv_updated rt0 (Fin 8) (etv_updated rt0 (Fin 7)
               [''etv_min'' \<mapsto> JNum (Fin 5), ''etv_max'' \<mapsto> JNum (Fin 10)])) ''etv_min'' = JNum (Fin 5)
   \<and> js_get (etv_updated rt0 (Fin 8) (etv_updated rt0 (Fin 7)
               [''etv_min'' \<mapsto> JNum (Fin 5), ''etv_max'' \<mapsto> JNum (Fin 10)])) ''etv_max'' = JNum (Fin 10)"
  by (simp add: field_of_def catalog_of_def item_of_def map_of_addItemData merged_data_def
      etv_empty_to_null_def js_get_def etv_updated_def)

text \<open>
  C2 fails on the code at a bound that is the number 0. An item is created with both
  bounds \<open>null\<close>; the value 0 is reported, then the value 5. After the first report
  both bounds are 0. After the second \<open>etv_min\<close> is 5: \<open>!item.data.etv_min\<close> holds for
  the number 0 as it does for \<open>null\<close>, so the minimum 0 is replaced by the larger value.
\<close>

theorem updateItemETV_zero_min_replaced:
  "(let c1 = snd (addItemData rt0 (st_sort ''price_desc'') 0 ''B0AAA''
                    [''etv_min'' \<mapsto> JNull, ''etv_max'' \<mapsto> JNull] catalog0);
        c2 = snd (updateItemETV rt0 (st_sort ''price_desc'') ''B0AAA'' (Fin 0) c1);
        c3 = snd (updateItemETV rt0 (st_sort ''price_desc'') ''B0AAA'' (Fin 5) c2)
    in field_of c2 ''B0AAA'' ''etv_min'' = Some (JNum (Fin 0))
       \<and> field_of c2 ''B0AAA'' ''etv_max'' = Some (JNum (Fin 0))
       \<and> field_of c3 ''B0AAA'' ''etv_min'' = Some (JNum (Fin 5))
       \<and> field_of c3 ''B0AAA'' ''etv_max'' = Some (JNum (Fin 5)))"
  by (simp add: field_of_def catalog0_def addItemData_unfold updateItemETV_def sortItems_def
      new_Map_def array_sort_def sort_entry_def merged_data_def etv_empty_to_null_def
      etv_updated_def js_get_def)

text \<open>
  What the two price orders do for a price that is truthy. Take a catalog in which
  every item has a price, that is, \<open>parseFloat(etv_min || missing)\<close> is a finite
  number; an item A whose \<open>etv_min\<close> is \<open>null\<close>; and an item B whose \<open>etv_min\<close> is
  truthy (a number other than 0, or a string that is not empty) and parses to the
  number \<open>r\<close>. Under \<open>price_desc\<close>, B is listed before A when \<open>r\<close> is above -1. Under
  \<open>price_asc\<close>, B is listed before A when \<open>r\<close> is below 99999999. The number 0 is
  not truthy, and is not covered.
\<close>

lemma unknown_price_listed_last:
  assumes "distinct (map fst (items c))"
    and "map_of (items c) a = Some ia" and "js_get (data ia) ''etv_min'' = JNull"
    and "map_of (items c) b = Some ib" and "truthy (js_get (data ib) ''etv_min'')"
    and "parseFloat rt (js_get (data ib) ''etv_min'') = Fin r"
  shows "(st ''notification.monitor.sortType'' = JStr TYPE_PRICE_DESC
          \<and> (\<forall>e\<in>set (items c). \<exists>x. price_under rt (- 1) (data (snd e)) = Fin x)
          \<and> - 1 < r
          \<longrightarrow> listed_before b a (map fst (items (sortItems rt st c))))
         \<and> (st ''notification.monitor.sortType'' = JStr TYPE_PRICE_ASC
          \<and> (\<forall>e\<in>set (items c). \<exists>x. price_under rt 99999999 (data (snd e)) = Fin x)
          \<and> r < 99999999
          \<longrightarrow> listed_before b a (map fst (items (sortItems rt st c))))"
proof (intro conjI impI)
  assume h: "st ''notification.monitor.sortType'' = JStr TYPE_PRICE_DESC
             \<and> (\<forall>e\<in>set (items c). \<exists>x. price_under rt (- 1) (data (snd e)) = Fin x) \<and> - 1 < r"
  define k where "k = (\<lambda>d. - (case price_under rt (- 1) d of Fin x \<Rightarrow> x | _ \<Rightarrow> 0))"
  have fin: "\<exists>x. price_under rt (- 1) (data (snd e)) = Fin x" if "e \<in> set (items c)" for e
    using h that by blast
  have cmp: "\<forall>x\<in>set (items c). \<forall>y\<in>set (items c).
                js_lt (Fin 0) (sort_cmp rt st (sort_entry x) (sort_entry y))
                  = (k (data (snd y)) < k (data (snd x)))"
  proof (intro ballI)
    fix x y assume "x \<in> set (items c)" "y \<in> set (items c)"
    then obtain px py where "price_under rt (- 1) (data (snd x)) = Fin px"
      "price_under rt (- 1) (data (snd y)) = Fin py"
      using fin by blast
    then show "js_lt (Fin 0) (sort_cmp rt st (sort_entry x) (sort_entry y))
                 = (k (data (snd y)) < k (data (snd x)))"
      using h by (auto simp: sort_cmp_price_desc sort_entry_def k_def)
  qed
  have "k (data ib) < k (data ia)"
    using h assms(3,5,6) by (simp add: k_def price_under_null price_under_truthy)
  then show "listed_before b a (map fst (items (sortItems rt st c)))"
    by (rule listed_before_sortItems [OF assms(1) cmp assms(4) assms(2)])
next
  assume h: "st ''notification.monitor.sortType'' = JStr TYPE_PRICE_ASC
             \<and> (\<forall>e\<in>set (items c). \<exists>x. price_under rt 99999999 (data (snd e)) = Fin x)
             \<and> r < 99999999"
  define k where "k = (\<lambda>d. case price_under rt 99999999 d of Fin x \<Rightarrow> x | _ \<Rightarrow> 0)"
  have fin: "\<exists>x. price_under rt 99999999 (data (snd e)) = Fin x" if "e \<in> set (items c)" for e
    using h that by blast
  have cmp: "\<forall>x\<in>set (items c). \<forall>y\<in>set (items c).
                js_lt (Fin 0) (sort_cmp rt st (sort_entry x) (sort_entry y))
                  = (k (data (snd y)) < k (data (snd x)))"
  proof (intro ballI)
    fix x y assume "x \<in> set (items c)" "y \<in> set (items c)"
    then obtain px py where "price_under rt 99999999 (data (snd x)) = Fin px"
      "price_under rt 99999999 (data (snd y)) = Fin py"
      using fin by blast
    then show "js_lt (Fin 0) (sort_cmp rt st (sort_entry x) (sort_entry y))
                 = (k (data (snd y)) < k (data (snd x)))"
      using h by (auto simp: sort_cmp_price_asc sort_entry_def k_def)
  qed
  have "k (data ib) < k (data ia)"
    using h assms(3,5,6) by (simp add: k_def price_under_null price_under_truthy)
  then show "listed_before b a (map fst (items (sortItems rt st c)))"
    by (rule listed_before_sortItems [OF assms(1) cmp assms(4) assms(2)])
qed

text \<open>The lemma at work: an item priced 12 is listed before one without a price.\<close>

lemma unknown_price_listed_last_example:
  "distinct (map fst (items (catalog_of [(''B0AAA'', [''etv_min'' \<mapsto> JNull]),
                                          (''B0BBB'', [''etv_min'' \<mapsto> JNum (Fin 12)])])))
   \<and> map_of (items (catalog_of [(''B0AAA'', [''etv_min'' \<mapsto> JNull]),
                                (''B0BBB'', [''etv_min'' \<mapsto> JNum (Fin 12)])])) ''B0AAA''
       = Some (item_of [''etv_min'' \<mapsto> JNull])
   \<and> js_get (data (item_of [''etv_min'' \<mapsto> JNull])) ''etv_min'' = JNull
   \<and> map_of (items (catalog_of [(''B0AAA'', [''etv_min'' \<mapsto> JNull]),
                                (''B0BBB'', [''etv_min'' \<mapsto> JNum (Fin 12)])])) ''B0BBB''
       = Some (item_of [''etv_min'' \<mapsto> JNum (Fin 12)])
   \<and> truthy (js_get (data (item_of [''etv_min'' \<mapsto> JNum (Fin 12)])) ''etv_min'')
   \<and> parseFloat rt0 (js_get (data (item_of [''etv_min'' \<mapsto> JNum (Fin 12)])) ''etv_min'') = Fin 12
   \<and> st_sort ''price_desc'' ''notification.monitor.sortType'' = JStr TYPE_PRICE_DESC
   \<and> price_under rt0 (- 1) [''etv_min'' \<mapsto> JNull] = Fin (- 1)
   \<and> price_under rt0 (- 1) [''etv_min'' \<mapsto> JNum (Fin 12)] = Fin 12
   \<and> st_sort ''price_asc'' ''notification.monitor.sortType'' = JStr TYPE_PRICE_ASC
   \<and> price_under rt0 99999999 [''etv_min'' \<mapsto> JNull] = Fin 99999999
   \<and> price_under rt0 99999999 [''etv_min'' \<mapsto> JNum (Fin 12)] = Fin 12
   \<and> listed_before ''B0BBB'' ''B0AAA''
        (map fst (items (sortItems rt0 (st_sort ''price_desc'')
           (catalog_of [(''B0AAA'', [''etv_min'' \<mapsto> JNull]),
                        (''B0BBB'', [''etv_min'' \<mapsto> JNum (Fin 12)])]))))
   \<and> listed_before ''B0BBB'' ''B0AAA''
        (map fst (items (sortItems rt0 (st_sort ''price_asc'')
           (catalog_of [(''B0AAA'', [''etv_min'' \<mapsto> JNull]),
                        (''B0BBB'', [''etv_min'' \<mapsto> JNum (Fin 12)])]))))"
proof -
  let ?c = "catalog_of [(''B0AAA'', [''etv_min'' \<mapsto> JNull]), (''B0BBB'', [''etv_min'' \<mapsto> JNum (Fin 12)])]"
  have h1: "distinct (map fst (items ?c))"
    by (simp add: catalog_of_def)
  have h2: "map_of (items ?c) ''B0AAA'' = Some (item_of [''etv_min'' \<mapsto> JNull])"
    by (simp add: catalog_of_def)
  have h3: "js_get (data (item_of [''etv_min'' \<mapsto> JNull])) ''etv_min'' = JNull"
    by (simp add: item_of_def js_get_def)
  have h4: "map_of (items ?c) ''B0BBB'' = Some (item_of [''etv_min'' \<mapsto> JNum (Fin 12)])"
    by (simp add: catalog_of_def)
  have h5: "truthy (js_get (data (item_of [''etv_min'' \<mapsto> JNum (Fin 12)])) ''etv_min'')"
    by (simp add: item_of_def js_get_def)
  have h6: "parseFloat rt0 (js_get (data (item_of [''etv_min'' \<mapsto> JNum (Fin 12)])) ''etv_min'') = Fin 12"
    by (simp add: item_of_def js_get_def)
  have d: "st_sort ''price_desc'' ''notification.monitor.sortType'' = JStr TYPE_PRICE_DESC"
    by (simp add: st_sort_def TYPE_PRICE_DESC_def)
  have u: "st_sort ''price_asc'' ''notification.monitor.sortType'' = JStr TYPE_PRICE_ASC"
    by (simp add: st_sort_def TYPE_PRICE_ASC_def)
  have p: "price_under rt0 (- 1) [''etv_min'' \<mapsto> JNull] = Fin (- 1)"
    "price_under rt0 (- 1) [''etv_min'' \<mapsto> JNum (Fin 12)] = Fin 12"
    "price_under rt0 99999999 [''etv_min'' \<mapsto> JNull] = Fin 99999999"
    "price_under rt0 99999999 [''etv_min'' \<mapsto> JNum (Fin 12)] = Fin 12"
    by (simp_all add: price_under_def js_or_def js_get_def)
  have all_desc: "\<forall>e\<in>set (items ?c). \<exists>x. price_under rt0 (- 1) (data (snd e)) = Fin x"
    by (simp add: catalog_of_def item_of_def p)
  have all_asc: "\<forall>e\<in>set (items ?c). \<exists>x. price_under rt0 99999999 (data (snd e)) = Fin x"
    by (simp add: catalog_of_def item_of_def p)
  have desc: "listed_before ''B0BBB'' ''B0AAA'' (map fst (items (sortItems rt0 (st_sort ''price_desc'') ?c)))"
    using unknown_price_listed_last [OF h1 h2 h3 h4 h5 h6, of "st_sort ''price_desc''"] d all_desc
    by simp
  have asc: "listed_before ''B0BBB'' ''B0AAA'' (map fst (items (sortItems rt0 (st_sort ''price_asc'') ?c)))"
    using unknown_price_listed_last [OF h1 h2 h3 h4 h5 h6, of "st_sort ''price_asc''"] u all_asc
    by simp
  show ?thesis
    by (intro conjI h1 h2 h3 h4 h5 h6 d u p desc asc)
qed

text \<open>
  C4 fails on the code where \<open>etv_min\<close> is the number 0. Item A, with \<open>etv_min\<close>
  \<open>null\<close>, was added before item B, whose \<open>etv_min\<close> is the number 0. Under
  \<open>price_desc\<close>, \<open>0 || -1\<close> is -1, the price \<open>null\<close> is given, so the two compare equal
  and the stable sort leaves A before B, where the comment of the code wants the
  "actual 0 values" to "rank higher". Under \<open>price_asc\<close>, \<open>0 || 99999999\<close> is
  99999999, and A stays before B as well. The same catalog is reached through the
  operations: both items are added without a price, and the value 0 is reported for B.
\<close>

theorem zero_price_not_above_unknown:
  "map fst (items (sortItems rt0 (st_sort ''price_desc'')
      (catalog_of [(''B0AAA'', [''etv_min'' \<mapsto> JNull]),
                   (''B0BBB'', [''etv_min'' \<mapsto> JNum (Fin 0)])])))
     = [''B0AAA'', ''B0BBB'']
   \<and> map fst (items (sortItems rt0 (st_sort ''price_asc'')
      (catalog_of [(''B0AAA'', [''etv_min'' \<mapsto> JNull]),
                   (''B0BBB'', [''etv_min'' \<mapsto> JNum (Fin 0)])])))
     = [''B0AAA'', ''B0BBB'']
   \<and> (let c1 = snd (addItemData rt0 (st_sort ''price_desc'') 0 ''B0AAA''
                       [''etv_min'' \<mapsto> JNull, ''etv_max'' \<mapsto> JNull] catalog0);
           c2 = snd (addItemData rt0 (st_sort ''price_desc'') 0 ''B0BBB''
                       [''etv_min'' \<mapsto> JNull, ''etv_max'' \<mapsto> JNull] c1);
           c3 = snd (updateItemETV rt0 (st_sort ''price_desc'') ''B0BBB'' (Fin 0) c2)
       in field_of c3 ''B0AAA'' ''etv_min'' = Some JNull
          \<and> field_of c3 ''B0BBB'' ''etv_min'' = Some (JNum (Fin 0))
          \<and> map fst (items c3) = [''B0AAA'', ''B0BBB''])"
  by (simp add: sortItems_def new_Map_def array_sort_def sort_cmp_def sort_entry_def st_sort_def
      TYPE_DATE_ASC_def TYPE_DATE_DESC_def TYPE_PRICE_ASC_def catalog_of_def item_of_def
      catalog0_def field_of_def addItemData_unfold updateItemETV_def merged_data_def
      etv_empty_to_null_def etv_updated_def js_get_def js_or_def)

text \<open>
  C5. An item that arrives under a fresh id with the empty string as \<open>etv_min\<close> and as
  \<open>etv_max\<close> is stored with both bounds \<open>null\<close>; a value \<open>v\<close> reported for it afterwards
  becomes both bounds, as the number it is. With \<open>v = 5\<close> the bounds are 5 and 5,
  neither NaN nor 0.
\<close>

theorem empty_string_etv_then_value:
  assumes "distinct (map fst (items c))"
    and "map_of (items c) X = None"
    and "itemData ''etv_min'' = Some (JStr [])"
    and "itemData ''etv_max'' = Some (JStr [])"
  shows "let c1 = snd (addItemData rt st now X itemData c);
             c2 = snd (updateItemETV rt st X (Fin v) c1)
         in fst (addItemData rt st now X itemData c)
            \<and> field_of c1 X ''etv_min'' = Some JNull
            \<and> field_of c1 X ''etv_max'' = Some JNull
            \<and> fst (updateItemETV rt st X (Fin v) c1)
            \<and> field_of c2 X ''etv_min'' = Some (JNum (Fin v))
            \<and> field_of c2 X ''etv_max'' = Some (JNum (Fin v))"
proof -
  define c1 where "c1 = snd (addItemData rt st now X itemData c)"
  define d1 where "d1 = etv_empty_to_null (merged_data now X itemData c)"
  have dist1: "distinct (map fst (items c1))"
    unfolding c1_def by (rule distinct_addItemData [OF assms(1)])
  have it: "map_of (items c1) X = Some \<lparr>data = d1, element = None, tile = None\<rparr>"
    unfolding c1_def d1_def by (simp add: map_of_addItemData [OF assms(1)] assms(2))
  have merged: "js_get (merged_data now X itemData c) ''etv_min'' = JStr []"
    "js_get (merged_data now X itemData c) ''etv_max'' = JStr []"
    by (simp_all add: merged_data_def assms js_get_def)
  have nulls: "js_get d1 ''etv_min'' = JNull" "js_get d1 ''etv_max'' = JNull"
    unfolding d1_def by (simp_all add: js_get_etv_empty_to_null merged)
  have upd: "js_get (etv_updated rt (Fin v) d1) ''etv_min'' = JNum (Fin v)"
    "js_get (etv_updated rt (Fin v) d1) ''etv_max'' = JNum (Fin v)"
    using nulls by (simp_all add: etv_updated_def Let_def js_get_def)
  have ok: "fst (updateItemETV rt st X (Fin v) c1)"
    by (simp add: updateItemETV_present [OF it])
  have added: "fst (addItemData rt st now X itemData c)"
    by (simp add: addItemData_unfold assms(2))
  show ?thesis
    unfolding Let_def c1_def [symmetric]
    using nulls upd ok it added
    by (simp add: field_of_def map_of_updateItemETV [OF dist1 it])
qed

theorem empty_string_etv_then_value_witness:
  "distinct (map fst (items catalog0))
   \<and> map_of (items catalog0) ''B0TEST'' = None
   \<and> [''etv_min'' \<mapsto> JStr [], ''etv_max'' \<mapsto> JStr []] ''etv_min'' = Some (JStr [])
   \<and> [''etv_min'' \<mapsto> JStr [], ''etv_max'' \<mapsto> JStr []] ''etv_max'' = Some (JStr [])
   \<and> (let c1 = snd (addItemData rt0 (st_sort ''price_desc'') 0 ''B0TEST''
                      [''etv_min'' \<mapsto> JStr [], ''etv_max'' \<mapsto> JStr []] catalog0);
           c2 = snd (updateItemETV rt0 (st_sort ''price_desc'') ''B0TEST'' (Fin 5) c1)
       in field_of c1 ''B0TEST'' ''etv_min'' = Some JNull
          \<and> field_of c1 ''B0TEST'' ''etv_max'' = Some JNull
          \<and> field_of c2 ''B0TEST'' ''etv_min'' = Some (JNum (Fin 5))
          \<and> field_of c2 ''B0TEST'' ''etv_max'' = Some (JNum (Fin 5)))"
  using empty_string_etv_then_value [of catalog0 "''B0TEST''"
      "[''etv_min'' \<mapsto> JStr [], ''etv_max'' \<mapsto> JStr []]" rt0 "st_sort ''price_desc''" 0 5]
  by (simp add: catalog0_def Let_def)

text \<open>
  C6, as the code has it. \<open>updateItemETV\<close>, \<open>updateItemTier\<close>, \<open>markItemUnavailable\<close> and
  \<open>storeItemDOMElement\<close> keep every item's bounds ordered. \<open>addItemData\<close> does not compare
  the bounds it stores: it keeps the catalog ordered when the bounds of the data it
  builds for its item (the incoming ones where given, the old ones otherwise, an empty
  string read as \<open>null\<close>) are ordered.
\<close>

theorem operations_keep_bounds_ordered:
  assumes "distinct (map fst (items c))"
    and "catalog_ordered c"
    and "\<forall>now asin itemData. op = AddItemData now asin itemData \<longrightarrow>
           etv_ordered (etv_empty_to_null (merged_data now asin itemData c))"
  shows "catalog_ordered (apply_op rt st op c)"
proof -
  have old: "\<And>k it. map_of (items c) k = Some it \<Longrightarrow> etv_ordered (data it)"
    using assms(1,2) by (simp add: catalog_ordered_iff)
  show ?thesis
  proof (cases op)
    case (AddItemData now asin itemData)
    have new: "etv_ordered (etv_empty_to_null (merged_data now asin itemData c))"
      using assms(3) AddItemData by simp
    have "distinct (map fst (items (snd (addItemData rt st now asin itemData c))))"
      by (rule distinct_addItemData [OF assms(1)])
    then show ?thesis
      using old new
      by (auto simp: AddItemData catalog_ordered_iff map_of_addItemData [OF assms(1)]
          split: if_splits)
  next
    case (UpdateItemETV asin etv)
    show ?thesis
    proof (cases "map_of (items c) asin")
      case None
      then show ?thesis using assms(2) by (simp add: UpdateItemETV updateItemETV_def)
    next
      case (Some it)
      have "distinct (map fst (items (snd (updateItemETV rt st asin etv c))))"
        by (rule distinct_updateItemETV [OF assms(1)])
      then show ?thesis
        using old old [OF Some]
        by (auto simp: UpdateItemETV catalog_ordered_iff map_of_updateItemETV [OF assms(1) Some]
            etv_ordered_etv_updated split: if_splits)
    qed
  next
    case (UpdateItemTier asin tier)
    show ?thesis
    proof (cases "map_of (items c) asin")
      case None
      then show ?thesis using assms(2) by (simp add: UpdateItemTier updateItemTier_def)
    next
      case (Some it)
      have "distinct (map fst (items (snd (updateItemTier rt st asin tier c))))"
        by (rule distinct_updateItemTier [OF assms(1)])
      then show ?thesis
        using old old [OF Some]
        by (auto simp: UpdateItemTier catalog_ordered_iff map_of_updateItemTier [OF assms(1) Some]
            etv_ordered_other_field split: if_splits)
    qed
  next
    case (MarkItemUnavailable asin)
    have "distinct (map fst (items (markItemUnavailable asin c)))"
      by (rule distinct_markItemUnavailable [OF assms(1)])
    then show ?thesis
      using old
      by (auto simp: MarkItemUnavailable catalog_ordered_iff map_of_markItemUnavailable
          etv_ordered_other_field split: option.splits if_splits)
  next
    case (StoreItemDOMElement asin el)
    show ?thesis
    proof (cases "map_of (items c) asin")
      case None
      then show ?thesis using assms(2) by (simp add: StoreItemDOMElement storeItemDOMElement_def)
    next
      case (Some it)
      have "distinct (map fst (map_set asin (it\<lparr>element := Some el, tile := Some el\<rparr>) (items c)))"
        by (rule distinct_map_set [OF assms(1)])
      then show ?thesis
        using old old [OF Some]
        by (auto simp: StoreItemDOMElement storeItemDOMElement_present [OF Some] catalog_ordered_iff
            map_of_map_set split: if_splits)
    qed
  qed
qed

theorem operations_keep_bounds_ordered_witness:
  "distinct (map fst (items (catalog_of [(''B0AAA'', [''etv_min'' \<mapsto> JNum (Fin 5), ''etv_max'' \<mapsto> JNum (Fin 10)])])))
   \<and> catalog_ordered (catalog_of [(''B0AAA'', [''etv_min'' \<mapsto> JNum (Fin 5), ''etv_max'' \<mapsto> JNum (Fin 10)])])
   \<and> etv_ordered (etv_empty_to_null (merged_data 0 ''B0AAA'' [''etv_min'' \<mapsto> JNum (Fin 7)]
         (catalog_of [(''B0AAA'', [''etv_min'' \<mapsto> JNum (Fin 5), ''etv_max'' \<mapsto> JNum (Fin 10)])])))
   \<and> catalog_ordered (apply_op rt0 (st_sort ''price_desc'') (AddItemData 0 ''B0AAA'' [''etv_min'' \<mapsto> JNum (Fin 7)])
        (catalog_of [(''B0AAA'', [''etv_min'' \<mapsto> JNum (Fin 5), ''etv_max'' \<mapsto> JNum (Fin 10)])]))"
  using operations_keep_bounds_ordered [of
      "catalog_of [(''B0AAA'', [''etv_min'' \<mapsto> JNum (Fin 5), ''etv_max'' \<mapsto> JNum (Fin 10)])]"
      "AddItemData 0 ''B0AAA'' [''etv_min'' \<mapsto> JNum (Fin 7)]" rt0 "st_sort ''price_desc''"]
  by (simp add: catalog_of_def item_of_def catalog_ordered_def etv_ordered_def js_get_def
      merged_data_def etv_empty_to_null_def)

theorem addItemData_unordered_bounds_counterexample:
  "catalog_ordered catalog0
   \<and> \<not> catalog_ordered (apply_op rt0 (st_sort ''price_desc'')
          (AddItemData 0 ''B0AAA'' [''etv_min'' \<mapsto> JNum (Fin 10), ''etv_max'' \<mapsto> JNum (Fin 5)]) catalog0)"
  by (simp add: catalog0_def catalog_ordered_def addItemData_unfold sortItems_def new_Map_def
      array_sort_def sort_entry_def merged_data_def etv_empty_to_null_def etv_ordered_def js_get_def)

text \<open>
  C7, as the code has it. Marking an id that is not in the catalog changes nothing.
  For an id that is in the catalog the mark sets \<open>unavailable\<close> to \<open>true\<close>, a second mark
  changes nothing more, and \<open>storeItemDOMElement\<close> called after the mark answers \<open>true\<close>.
\<close>

theorem mark_unavailable_before_element:
  "(map_of (items c) asin = None \<longrightarrow> markItemUnavailable asin c = c)
   \<and> (map_of (items c) asin \<noteq> None \<longrightarrow>
        field_of (markItemUnavailable asin c) asin ''unavailable'' = Some (JBool True)
        \<and> markItemUnavailable asin (markItemUnavailable asin c) = markItemUnavailable asin c
        \<and> (\<exists>c'. storeItemDOMElement asin el (markItemUnavailable asin c) = Inr (True, c')))"
proof (cases "map_of (items c) asin")
  case None
  then show ?thesis by (simp add: markItemUnavailable_def)
next
  case (Some it)
  have marked: "map_of (items (markItemUnavailable asin c)) asin
                = Some (it\<lparr>data := (data it)(''unavailable'' \<mapsto> JBool True)\<rparr>)"
    by (simp add: map_of_markItemUnavailable Some)
  have "\<exists>c'. storeItemDOMElement asin el (markItemUnavailable asin c) = Inr (True, c')"
    by (simp add: storeItemDOMElement_present [OF marked] js_get_def)
  then show ?thesis
    using Some by (simp add: field_of_def marked markItemUnavailable_twice js_get_def)
qed

theorem mark_unavailable_before_element_witness:
  "map_of (items (catalog_of [(''B0AAA'', [''title'' \<mapsto> JStr ''Lamp''])])) ''B0AAA'' \<noteq> None
   \<and> map_of (items catalog0) ''B0AAA'' = None
   \<and> markItemUnavailable ''B0AAA'' catalog0 = catalog0
   \<and> (\<exists>c'. storeItemDOMElement ''B0AAA'' 1
               (markItemUnavailable ''B0AAA'' (catalog_of [(''B0AAA'', [''title'' \<mapsto> JStr ''Lamp''])]))
             = Inr (True, c'))"
  using mark_unavailable_before_element [of "catalog_of [(''B0AAA'', [''title'' \<mapsto> JStr ''Lamp''])]" "''B0AAA''" 1]
    mark_unavailable_before_element [of catalog0 "''B0AAA''" 1]
  by (simp add: catalog_of_def catalog0_def)

text \<open>
  C7 as stated, for every id, fails on an id that is not in the catalog when it is
  marked. The mark is dropped. \<open>storeItemDOMElement\<close> then throws when the item is still
  missing, and answers \<open>false\<close> when the item has been added in between.
\<close>

theorem mark_unavailable_absent_counterexample:
  "storeItemDOMElement ''B0AAA'' 1 (markItemUnavailable ''B0AAA'' catalog0) = Inl (ItemNotFound ''B0AAA'')
   \<and> map_sum id fst
        (storeItemDOMElement ''B0AAA'' 1
           (snd (addItemData rt0 (st_sort ''price_desc'') 0 ''B0AAA'' [''title'' \<mapsto> JStr ''Lamp'']
                   (markItemUnavailable ''B0AAA'' catalog0))))
       = Inr False"
  by (simp add: catalog0_def markItemUnavailable_def storeItemDOMElement_def addItemData_unfold
      sortItems_def new_Map_def array_sort_def sort_entry_def merged_data_def
      etv_empty_to_null_def js_get_def)

section \<open>Properties of the service worker\<close>

lemma receive_all_buffered:
  "fetch100 w \<Longrightarrow> \<forall>e\<in>set es. \<not> type_is rt e ''fetchRecentItemsEnd'' \<Longrightarrow>
   receive_all rt es w = w\<lparr>dataBuffer := dataBuffer w @ es\<rparr>"
proof (induction es arbitrary: w)
  case Nil
  then show ?case by (simp add: receive_all_def)
next
  case (Cons e es)
  have step: "dataBuffering rt e w = w\<lparr>dataBuffer := dataBuffer w @ [e]\<rparr>"
    using Cons.prems by (simp add: dataBuffering_def Let_def del: type_is.simps)
  have "receive_all rt es (w\<lparr>dataBuffer := dataBuffer w @ [e]\<rparr>)
        = (w\<lparr>dataBuffer := dataBuffer w @ [e]\<rparr>)\<lparr>dataBuffer := dataBuffer (w\<lparr>dataBuffer := dataBuffer w @ [e]\<rparr>) @ es\<rparr>"
    using Cons.prems by (intro Cons.IH) simp_all
  then show ?case
    by (simp add: receive_all_def step del: type_is.simps)
qed

lemma receive_all_append:
  "receive_all rt (ds @ ds') w = receive_all rt ds' (receive_all rt ds w)"
  by (simp add: receive_all_def)

subsection \<open>The replay loop\<close>

lemma replay_products:
  "n \<le> length arr \<Longrightarrow>
   list_all2 (\<lambda>e p. \<exists>i. e = newItem_of st i p) (replay rt st arr n)
     (filter (\<lambda>p. \<not> skipped rt p) (rev (take n arr)))"
proof (induction n)
  case 0
  then show ?case by simp
next
  case (Suc n)
  then have n: "n < length arr" by simp
  have "list_all2 (\<lambda>e p. \<exists>i. e = newItem_of st i p) (replay rt st arr n)
          (filter (\<lambda>p. \<not> skipped rt p) (rev (take n arr)))"
    using Suc by simp
  then show ?case
    by (auto simp: take_Suc_conv_app_nth [OF n])
qed

lemma date_cmp_key:
  assumes "newDate rt (js_get a ''date'') = Fin ta" and "newDate rt (js_get b ''date'') = Fin tb"
  shows "js_lt (Fin 0) (date_cmp rt a b) = (- date_of rt b < - date_of rt a)"
  using assms by (simp add: date_cmp_def date_of_def)

subsection \<open>The claims on the service worker\<close>

text \<open>
  C3, as the code has it. While a fetch is in flight, events that are not the end
  marker followed by the end marker \<open>fetchRecentItemsEnd\<close> are sent on as one
  \<open>fetch100\<close> message, once, in the order received; the end marker is the last element
  of that batch. Afterwards the buffer is empty and events pass through again.
\<close>

theorem buffered_events_flushed_with_marker:
  assumes "fetch100 w"
    and "\<forall>e\<in>set es. \<not> type_is rt e ''fetchRecentItemsEnd''"
    and "type_is rt marker ''fetchRecentItemsEnd''"
  shows "receive_all rt (es @ [marker]) w =
           w\<lparr>fetch100 := False, dataBuffer := [],
             sent := sent w @ [Fetch100 (dataBuffer w @ es @ [marker])]\<rparr>"
proof -
  have "receive_all rt (es @ [marker]) w = dataBuffering rt marker (w\<lparr>dataBuffer := dataBuffer w @ es\<rparr>)"
    by (simp add: receive_all_append receive_all_buffered [OF assms(1,2)])
       (simp add: receive_all_def)
  then show ?thesis
    using assms(1,3)
    by (simp add: dataBuffering_def sendMessageToAllTabs_def Let_def del: type_is.simps)
qed

theorem buffered_events_flushed_with_marker_witness:
  "fetch100 fetching0
   \<and> \<not> type_is rt0 (newItem_event ''B0AAA'') ''fetchRecentItemsEnd''
   \<and> \<not> type_is rt0 (newItem_event ''B0BBB'') ''fetchRecentItemsEnd''
   \<and> \<not> type_is rt0 (newItem_event ''B0CCC'') ''fetchRecentItemsEnd''
   \<and> type_is rt0 fetchRecentItemsEnd ''fetchRecentItemsEnd''
   \<and> receive_all rt0 [newItem_event ''B0AAA'', newItem_event ''B0BBB'', newItem_event ''B0CCC'',
                       fetchRecentItemsEnd] fetching0
       = \<lparr>fetch100 = False, dataBuffer = [],
          sent = [Fetch100 [newItem_event ''B0AAA'', newItem_event ''B0BBB'', newItem_event ''B0CCC'',
                            fetchRecentItemsEnd]],
          streamInput = []\<rparr>"
  using buffered_events_flushed_with_marker [of fetching0
      "[newItem_event ''B0AAA'', newItem_event ''B0BBB'', newItem_event ''B0CCC'']" rt0 fetchRecentItemsEnd]
  by (simp add: fetching0_def newItem_event_def fetchRecentItemsEnd_def js_get_def)

text \<open>
  C3 as stated fails: the batch is not the three events alone. The end marker is
  pushed to the buffer before the buffer is sent, so it travels in the batch.
\<close>

theorem batch_without_marker_counterexample:
  "sent (receive_all rt0 [newItem_event ''B0AAA'', newItem_event ''B0BBB'', newItem_event ''B0CCC'',
                          fetchRecentItemsEnd] fetching0)
     \<noteq> [Fetch100 [newItem_event ''B0AAA'', newItem_event ''B0BBB'', newItem_event ''B0CCC'']]
   \<and> sent (receive_all rt0 [newItem_event ''B0AAA'', newItem_event ''B0BBB'', newItem_event ''B0CCC'',
                          fetchRecentItemsEnd] fetching0)
     = [Fetch100 [newItem_event ''B0AAA'', newItem_event ''B0BBB'', newItem_event ''B0CCC'',
                  fetchRecentItemsEnd]]"
  by (simp add: receive_all_def dataBuffering_def sendMessageToAllTabs_def fetching0_def
      newItem_event_def fetchRecentItemsEnd_def js_get_def)

text \<open>
  C8 fails on the code. A round has armed the reload timer (id 2). The message
  \<open>dogpage\<close> arrives: \<open>resetReloadTimer\<close> installs the 24 hour timer (id 3) and stores
  it in \<open>reloadTimer\<close>, without clearing timer 2, which stays pending. When timer 2
  fires, \<open>setReloadTimer\<close> clears the timer held in \<open>reloadTimer\<close>, which is the 24 hour
  timer, and arms the next ordinary round.
\<close>

theorem pause_leaves_reload_timer_pending:
  "(let s1 = setReloadTimer True 300000 scheduler0;
        s2 = processBroadcastMessage rt0 [''type'' \<mapsto> JStr ''dogpage''] s1;
        s3 = fire True 300000 2 s2
    in pending s1 = [(1, DisplayLog, 500), (2, NextRound, 300000)]
       \<and> reloadTimer s1 = Some 2
       \<and> pending s2 = [(1, DisplayLog, 500), (2, NextRound, 300000), (3, ResetExpired, 86400000)]
       \<and> reloadTimer s2 = Some 3
       \<and> pending s3 = [(4, DisplayLog, 500), (5, NextRound, 300000)]
       \<and> reloadTimer s3 = Some 5)"
  by (simp add: scheduler0_def setReloadTimer_def processBroadcastMessage_def fire_def
      resetReloadTimer_def setTimeout_def clearTimeout_def timer_set_def js_get_def Let_def)

text \<open>
  C9. When the socket is connected, or a connection attempt is under way,
  \<open>connectWebSocket\<close> changes nothing: no call of \<open>io.connect\<close>. Called twice in a row,
  it makes at most one attempt, and the second call makes none.
\<close>

theorem connect_twice_one_attempt:
  "(socket s = Some True \<or> socket_connecting s \<longrightarrow> connectWebSocket st countryCode s = s)
   \<and> attempts (connectWebSocket st countryCode (connectWebSocket st countryCode s))
       = attempts (connectWebSocket st countryCode s)
   \<and> attempts (connectWebSocket st countryCode s) \<le> Suc (attempts s)"
  by (simp add: connectWebSocket_def)

theorem connect_twice_one_attempt_witness:
  "socket \<lparr>socket = Some True, socket_connecting = False, attempts = 1\<rparr> = Some True
   \<and> connectWebSocket (\<lambda>p. if p = ''notification.active'' then JBool True else JUndefined) (JStr ''com'')
        \<lparr>socket = Some True, socket_connecting = False, attempts = 1\<rparr>
       = \<lparr>socket = Some True, socket_connecting = False, attempts = 1\<rparr>
   \<and> attempts (connectWebSocket (\<lambda>p. if p = ''notification.active'' then JBool True else JUndefined) (JStr ''com'')
        (connectWebSocket (\<lambda>p. if p = ''notification.active'' then JBool True else JUndefined) (JStr ''com'')
           \<lparr>socket = None, socket_connecting = False, attempts = 0\<rparr>)) = 1"
  using connect_twice_one_attempt [of "\<lparr>socket = Some True, socket_connecting = False, attempts = 1\<rparr>"
      "\<lambda>p. if p = ''notification.active'' then JBool True else JUndefined" "JStr ''com''"]
    connect_twice_one_attempt [of "\<lparr>socket = None, socket_connecting = False, attempts = 0\<rparr>"
      "\<lambda>p. if p = ''notification.active'' then JBool True else JUndefined" "JStr ''com''"]
  by (simp add: connectWebSocket_def)

text \<open>
  C10, as the code has it. For every response, \<open>processLast100Items\<close> sets \<open>fetch100\<close>
  and hands to the stream one \<open>newItem\<close> object for each product whose title and image
  url are not empty (\<open>== ""\<close>), and no object for any other product; the last object it
  hands over is the end marker \<open>fetchRecentItemsEnd\<close>. For a response in which every
  product has a valid date, the products are replayed by ascending date, oldest first.
\<close>

theorem last_items_replayed_oldest_first:
  "\<exists>evs ps.
     streamInput (processLast100Items rt st arrProducts w) = streamInput w @ evs @ [fetchRecentItemsEnd]
     \<and> fetch100 (processLast100Items rt st arrProducts w)
     \<and> list_all2 (\<lambda>e p. \<exists>i. e = newItem_of st i p) evs ps
     \<and> mset ps = mset (filter (\<lambda>p. \<not> skipped rt p) arrProducts)
     \<and> (\<forall>p\<in>set ps. js_get p ''title'' \<noteq> JStr [] \<and> js_get p ''img_url'' \<noteq> JStr [])
     \<and> ((\<forall>p\<in>set arrProducts. \<exists>t. newDate rt (js_get p ''date'') = Fin t) \<longrightarrow>
          sorted (map (date_of rt) ps))"
proof -
  define arr where "arr = array_sort (date_cmp rt) arrProducts"
  define ps where "ps = filter (\<lambda>p. \<not> skipped rt p) (rev arr)"
  have input: "streamInput (processLast100Items rt st arrProducts w)
               = streamInput w @ replay rt st arr (length arr) @ [fetchRecentItemsEnd]"
    by (simp add: processLast100Items_def arr_def Let_def)
  have flag: "fetch100 (processLast100Items rt st arrProducts w)"
    by (simp add: processLast100Items_def Let_def)
  have evs: "list_all2 (\<lambda>e p. \<exists>i. e = newItem_of st i p) (replay rt st arr (length arr)) ps"
    using replay_products [of "length arr" arr st rt] by (simp add: ps_def)
  have "mset arr = mset arrProducts"
    by (simp add: arr_def mset_array_sort)
  then have perm: "mset ps = mset (filter (\<lambda>p. \<not> skipped rt p) arrProducts)"
    by (simp add: ps_def mset_filter)
  have kept: "\<forall>p\<in>set ps. js_get p ''title'' \<noteq> JStr [] \<and> js_get p ''img_url'' \<noteq> JStr []"
    by (auto simp: ps_def skipped_def)
  have order: "sorted (map (date_of rt) ps)"
    if valid: "\<forall>p\<in>set arrProducts. \<exists>t. newDate rt (js_get p ''date'') = Fin t"
  proof -
    have "\<forall>x\<in>set arrProducts. \<forall>y\<in>set arrProducts.
            js_lt (Fin 0) (date_cmp rt x y) = (- date_of rt y < - date_of rt x)"
      using valid by (meson date_cmp_key)
    then have "sorted (map (\<lambda>p. - date_of rt p) arr)"
      unfolding arr_def by (rule array_sort_sorted)
    then have "sorted (map (date_of rt) (rev arr))"
      by (rule sorted_rev_neg)
    then show ?thesis
      unfolding ps_def by (rule sorted_map_filter)
  qed
  show ?thesis
    using input flag evs perm kept order by blast
qed

theorem last_items_replayed_oldest_first_witness:
  "newDate rt0 (js_get (product ''B0AAA'' ''Lamp'' ''a.jpg'' 3) ''date'') = Fin 3
   \<and> newDate rt0 (js_get (product ''B0BBB'' [] ''b.jpg'' 1) ''date'') = Fin 1
   \<and> newDate rt0 (js_get (product ''B0CCC'' ''Desk'' ''c.jpg'' 2) ''date'') = Fin 2
   \<and> (\<exists>evs ps.
         streamInput (processLast100Items rt0 (st_sort ''price_desc'')
           [product ''B0AAA'' ''Lamp'' ''a.jpg'' 3, product ''B0BBB'' [] ''b.jpg'' 1,
            product ''B0CCC'' ''Desk'' ''c.jpg'' 2] fetching0) = evs @ [fetchRecentItemsEnd]
         \<and> list_all2 (\<lambda>e p. \<exists>i. e = newItem_of (st_sort ''price_desc'') i p) evs ps
         \<and> mset ps = mset (filter (\<lambda>p. \<not> skipped rt0 p)
              [product ''B0AAA'' ''Lamp'' ''a.jpg'' 3, product ''B0BBB'' [] ''b.jpg'' 1,
               product ''B0CCC'' ''Desk'' ''c.jpg'' 2])
         \<and> sorted (map (date_of rt0) ps))
   \<and> map (\<lambda>e. js_get e ''asin'')
        (streamInput (processLast100Items rt0 (st_sort ''price_desc'')
           [product ''B0AAA'' ''Lamp'' ''a.jpg'' 3, product ''B0BBB'' [] ''b.jpg'' 1,
            product ''B0CCC'' ''Desk'' ''c.jpg'' 2] fetching0))
       = [JStr ''B0CCC'', JStr ''B0AAA'', JUndefined]"
proof -
  let ?arr = "[product ''B0AAA'' ''Lamp'' ''a.jpg'' 3, product ''B0BBB'' [] ''b.jpg'' 1,
               product ''B0CCC'' ''Desk'' ''c.jpg'' 2]"
  let ?w = "processLast100Items rt0 (st_sort ''price_desc'') ?arr fetching0"
  have date: "newDate rt0 (js_get (product x y z t) ''date'') = Fin t" for x y z t
    by (simp add: rt0_def product_def js_get_def)
  have valid: "\<forall>p\<in>set ?arr. \<exists>t. newDate rt0 (js_get p ''date'') = Fin t"
    by (simp add: date)
  obtain evs ps where
    f1: "streamInput ?w = streamInput fetching0 @ evs @ [fetchRecentItemsEnd]"
    and f2: "list_all2 (\<lambda>e p. \<exists>i. e = newItem_of (st_sort ''price_desc'') i p) evs ps"
    and f3: "mset ps = mset (filter (\<lambda>p. \<not> skipped rt0 p) ?arr)"
    and f4: "sorted (map (date_of rt0) ps)"
    using last_items_replayed_oldest_first [of rt0 "st_sort ''price_desc''" ?arr fetching0] valid
    by blast
  have f1': "streamInput ?w = evs @ [fetchRecentItemsEnd]"
    using f1 by (simp add: fetching0_def)
  have part1: "\<exists>evs ps.
         streamInput ?w = evs @ [fetchRecentItemsEnd]
         \<and> list_all2 (\<lambda>e p. \<exists>i. e = newItem_of (st_sort ''price_desc'') i p) evs ps
         \<and> mset ps = mset (filter (\<lambda>p. \<not> skipped rt0 p) ?arr)
         \<and> sorted (map (date_of rt0) ps)"
    using f1' f2 f3 f4 by (intro exI [of _ evs] exI [of _ ps] conjI)
  have s: "array_sort (date_cmp rt0) ?arr
        = [product ''B0AAA'' ''Lamp'' ''a.jpg'' 3, product ''B0CCC'' ''Desk'' ''c.jpg'' 2,
           product ''B0BBB'' [] ''b.jpg'' 1]"
    by (simp add: array_sort_def date_cmp_def date)
  have k: "\<not> skipped rt0 (product ''B0AAA'' ''Lamp'' ''a.jpg'' 3)"
      "skipped rt0 (product ''B0BBB'' [] ''b.jpg'' 1)"
      "\<not> skipped rt0 (product ''B0CCC'' ''Desk'' ''c.jpg'' 2)"
    by (simp_all add: skipped_def product_def js_get_def)
  have a: "js_get (newItem_of st i p) ''asin'' = js_get p ''asin''" for st i p
    by (simp add: newItem_of_def js_get_def)
  have b: "js_get (product x y z t) ''asin'' = JStr x" for x y z t
    by (simp add: product_def js_get_def)
  have c: "js_get fetchRecentItemsEnd ''asin'' = JUndefined"
    by (simp add: fetchRecentItemsEnd_def js_get_def)
  have part2: "map (\<lambda>e. js_get e ''asin'') (streamInput ?w) = [JStr ''B0CCC'', JStr ''B0AAA'', JUndefined]"
    by (simp add: processLast100Items_def s k a b c fetching0_def Let_def numeral_3_eq_3)
  show ?thesis
    by (intro conjI date part1 part2)
qed

text \<open>
  C10 as stated, for every response, fails on a response with a product that has no
  date. The response lists a product dated 1, a product without a date, and a product
  dated 2. Every comparison with the undated product gives NaN, which counts as equal,
  so the sort leaves the array as it is, and the walk from the last index replays the
  product dated 2 before the product dated 1.
\<close>

theorem undated_product_replay_counterexample:
  "map (\<lambda>e. js_get e ''asin'')
     (streamInput (processLast100Items rt0 (st_sort ''price_desc'')
        [product ''B0AAA'' ''Lamp'' ''a.jpg'' 1, undated_product ''B0NNN'' ''Mug'' ''n.jpg'',
         product ''B0BBB'' ''Desk'' ''b.jpg'' 2] fetching0))
     = [JStr ''B0BBB'', JStr ''B0NNN'', JStr ''B0AAA'', JUndefined]
   \<and> map (\<lambda>e. js_get e ''date'')
     (streamInput (processLast100Items rt0 (st_sort ''price_desc'')
        [product ''B0AAA'' ''Lamp'' ''a.jpg'' 1, undated_product ''B0NNN'' ''Mug'' ''n.jpg'',
         product ''B0BBB'' ''Desk'' ''b.jpg'' 2] fetching0))
     = [JNum (Fin 2), JUndefined, JNum (Fin 1), JUndefined]"
proof -
  let ?arr = "[product ''B0AAA'' ''Lamp'' ''a.jpg'' 1, undated_product ''B0NNN'' ''Mug'' ''n.jpg'',
               product ''B0BBB'' ''Desk'' ''b.jpg'' 2]"
  have date: "newDate rt0 (js_get (product x y z t) ''date'') = Fin t" for x y z t
    by (simp add: rt0_def product_def js_get_def)
  have nodate: "newDate rt0 (js_get (undated_product x y z) ''date'') = NaN" for x y z
    by (simp add: rt0_def undated_product_def js_get_def)
  have s: "array_sort (date_cmp rt0) ?arr = ?arr"
    by (simp add: array_sort_def date_cmp_def date nodate)
  have k: "\<not> skipped rt0 (product ''B0AAA'' ''Lamp'' ''a.jpg'' 1)"
      "\<not> skipped rt0 (undated_product ''B0NNN'' ''Mug'' ''n.jpg'')"
      "\<not> skipped rt0 (product ''B0BBB'' ''Desk'' ''b.jpg'' 2)"
    by (simp_all add: skipped_def product_def undated_product_def js_get_def)
  have a: "js_get (newItem_of st i p) ''asin'' = js_get p ''asin''"
    "js_get (newItem_of st i p) ''date'' = js_get p ''date''" for st i p
    by (simp_all add: newItem_of_def js_get_def)
  have b: "js_get (product x y z t) ''asin'' = JStr x"
    "js_get (product x y z t) ''date'' = JNum (Fin t)" for x y z t
    by (simp_all add: product_def js_get_def)
  have b': "js_get (undated_product x y z) ''asin'' = JStr x"
    "js_get (undated_product x y z) ''date'' = JUndefined" for x y z
    by (simp_all add: undated_product_def js_get_def)
  have c: "js_get fetchRecentItemsEnd ''asin'' = JUndefined"
    "js_get fetchRecentItemsEnd ''date'' = JUndefined"
    by (simp_all add: fetchRecentItemsEnd_def js_get_def)
  show ?thesis
    by (simp add: processLast100Items_def s k a b b' c fetching0_def Let_def numeral_3_eq_3)
qed

end
